theory Spec2Isabelle
  imports Complex_Main "HOL-Library.Word"
begin

section \<open>Python values of \<open>pygatt/classes.py\<close>\<close>

text \<open>
  The module \<open>pygatt/classes.py\<close> defines one class, \<open>BluetoothLEDevice\<close>, a facade over a
  backend object. A byte is an 8-bit word, a \<open>bytearray\<close> a list of bytes. A characteristic
  handle is what the backend's \<open>get_handle\<close> returns: a number, or Python's \<open>None\<close>
  (\<open>char_read\<close> tests \<open>handle is None\<close>). A UUID argument is a Python string or \<open>None\<close>
  (the default of \<open>uuid_recv\<close>).
\<close>

type_synonym byte = "8 word"
type_synonym bytes = "byte list"
type_synonym handle = "nat option"
type_synonym uuid = "string option"

text \<open>
  The mapping returned by the backend's \<open>get_notifications\<close>: handle to the list of
  notification values received on it. Subscripting it with a handle that is not a key raises
  \<open>KeyError\<close>.
\<close>

type_synonym inbox = "handle \<rightharpoonup> bytes list"

text \<open>
  The exceptions that the module raises or that reach its caller. \<open>NoResponseError\<close> carries
  \<open>sec_waited\<close>; \<open>PyException\<close> is the plain \<open>Exception(msg)\<close>.
\<close>

datatype pyerror =
    AttributeError
  | TypeError string
  | ValueError string
  | KeyError
  | IndexError
  | NotImplementedError
  | NotConnectedError string
  | NoResponseError rat
  | PyException string

text \<open>What \<open>get_rssi\<close> hands back through \<open>return\<close>: a number, or an exception instance.\<close>

datatype pyval = PInt int | PExceptionObject pyerror

datatype backend_kind = BLED112 | GATTTOOL | OtherBackend

section \<open>\<open>binascii.unhexlify\<close> and \<open>_uuid_bytearray\<close>\<close>

text \<open>
  \<open>to_int\<close> is the digit table of \<open>binascii\<close>: the value of a hexadecimal digit of either
  case, nothing for any other character.
\<close>

definition to_int :: "char \<Rightarrow> nat option" where
  "to_int c =
     (let n = (of_char c :: nat) in
      if 48 \<le> n \<and> n \<le> 57 then Some (n - 48)
      else if 65 \<le> n \<and> n \<le> 70 then Some (n - 55)
      else if 97 \<le> n \<and> n \<le> 102 then Some (n - 87)
      else None)"

fun hex_pairs :: "string \<Rightarrow> pyerror + bytes" where
  "hex_pairs (a # b # cs) =
     (case (to_int a, to_int b) of
        (Some top', Some bot') \<Rightarrow>
          (case hex_pairs cs of
             Inl e \<Rightarrow> Inl e
           | Inr bs \<Rightarrow> Inr (word_of_nat (16 * top' + bot') # bs))
      | _ \<Rightarrow> Inl (TypeError ''Non-hexadecimal digit found''))"
| "hex_pairs _ = Inr []"

text \<open>
  \<open>unhexlify\<close>: an odd number of characters is refused first, then every pair of characters
  gives the byte \<open>(top << 4) + bot\<close>.
\<close>

definition unhexlify :: "string \<Rightarrow> pyerror + bytes" where
  "unhexlify s =
     (if odd (length s) then Inl (TypeError ''Odd-length string'') else hex_pairs s)"

text \<open>\<open>s.replace("-", "")\<close>: every hyphen is removed.\<close>

definition replace_hyphens :: "string \<Rightarrow> string" where
  "replace_hyphens s = filter (\<lambda>c. c \<noteq> CHR ''-'') s"

text \<open>
  \<open>_uuid_bytearray(uuid)\<close> is \<open>unhexlify(uuid.replace("-", ""))\<close>; \<open>None\<close> has no method
  \<open>replace\<close>, which is an \<open>AttributeError\<close>.
\<close>

definition uuid_bytearray :: "uuid \<Rightarrow> pyerror + bytes" where
  "uuid_bytearray u =
     (case u of
        None \<Rightarrow> Inl AttributeError
      | Some s \<Rightarrow> unhexlify (replace_hyphens s))"

section \<open>The backends\<close>

text \<open>
  Modelled from the spec: the BLED112 backend object (\<open>bled112_backend\<close>, handed to the
  constructor) is not part of \<open>classes.py\<close>. Its methods are the capability interface of
  the specification (section 6): each one is a function of the backend's state \<open>'s\<close>, giving
  the returned value and the next state, failure being a returned value (\<open>False\<close>, \<open>None\<close>).

  \<open>b_get_notifications\<close> returns a reference to a mapping. What that reference shows when it
  is subscripted later depends on the backend's state at that moment, so the reference is the
  function from the backend's state to the mapping's contents: a backend that hands out its
  own mapping returns a reference that follows every later change, one that hands out a copy
  returns a constant function.

  \<open>b_elapse\<close> is what the backend's receiver thread does to the state while the caller
  is in \<open>time.sleep\<close>.
\<close>

record 's bled112 =
  b_bond :: "'s \<Rightarrow> 's"
  b_connect :: "bytes \<Rightarrow> rat \<Rightarrow> 's \<Rightarrow> bool \<times> 's"
  b_char_read :: "handle \<Rightarrow> 's \<Rightarrow> bytes option \<times> 's"
  b_char_write :: "handle \<Rightarrow> bytes \<Rightarrow> 's \<Rightarrow> bool \<times> 's"
  b_encrypt :: "'s \<Rightarrow> 's"
  b_get_handle :: "bytes \<Rightarrow> 's \<Rightarrow> handle \<times> 's"
  b_get_notifications :: "'s \<Rightarrow> ('s \<Rightarrow> inbox) \<times> 's"
  b_get_rssi :: "'s \<Rightarrow> int \<times> 's"
  b_remove_notification :: "handle \<Rightarrow> nat \<Rightarrow> 's \<Rightarrow> 's"
  b_run :: "'s \<Rightarrow> 's"
  b_disconnect :: "'s \<Rightarrow> 's"
  b_stop :: "'s \<Rightarrow> 's"
  b_subscribe :: "bytes \<Rightarrow> bool \<Rightarrow> 's \<Rightarrow> 's"
  b_elapse :: "rat \<Rightarrow> 's \<Rightarrow> 's"

text \<open>
  Modelled from the spec: the GATTTOOL backend (\<open>gatttool_classes.GATTToolBackend\<close>) is not
  part of \<open>classes.py\<close> either. \<open>get_handle\<close> is called with the UUID string by \<open>char_write\<close>
  and with the decoded bytes by \<open>_get_handle\<close>.
\<close>

record ('s, 'c) gatttool =
  g_bond :: "'s \<Rightarrow> 's"
  g_connect :: "rat \<Rightarrow> 's \<Rightarrow> 's"
  g_char_read_uuid :: "uuid \<Rightarrow> 's \<Rightarrow> bytes option \<times> 's"
  g_get_handle :: "uuid + bytes \<Rightarrow> 's \<Rightarrow> handle \<times> 's"
  g_char_write :: "handle \<Rightarrow> bytes \<Rightarrow> bool \<Rightarrow> 's \<Rightarrow> 's"
  g_run :: "'s \<Rightarrow> 's"
  g_stop :: "'s \<Rightarrow> 's"
  g_subscribe :: "uuid \<Rightarrow> 'c option \<Rightarrow> bool \<Rightarrow> 's \<Rightarrow> 's"

text \<open>
  The surroundings of a device: the two backends' methods, and what a callback of type \<open>'c\<close>
  does when it is called with a value: it returns (\<open>None\<close>) or raises (\<open>Some e\<close>).
\<close>

record ('s, 'c) env =
  bled :: "'s bled112"
  gatt :: "('s, 'c) gatttool"
  observer :: "'c \<Rightarrow> bytes \<Rightarrow> pyerror option"

section \<open>The device\<close>

text \<open>
  Everything the facade does to the outside is recorded, in order: each call of a backend
  method with its arguments, each \<open>time.sleep\<close>, each call of a callback.
\<close>

datatype 'c event =
    EvBond
  | EvConnect bytes rat
  | EvCharRead handle
  | EvCharWrite handle bytes
  | EvEncrypt
  | EvGetHandle bytes
  | EvGetNotifications
  | EvGetRssi
  | EvRemoveNotification handle nat
  | EvRun
  | EvDisconnect
  | EvStop
  | EvSubscribe bytes bool
  | EvSleep rat
  | EvCallback 'c bytes
  | EvGatttool

text \<open>
  The fields of a \<open>BluetoothLEDevice\<close>: \<open>_backend\<close> (its state), \<open>_backend_type\<close>,
  \<open>_mac_address\<close>, \<open>_callbacks\<close> (a dict from the UUID given to \<open>subscribe\<close> to a list of
  callbacks), and the record of events.
\<close>

record ('s, 'c) device =
  backend :: 's
  backend_type :: backend_kind
  mac_address :: bytes
  callbacks :: "uuid \<rightharpoonup> 'c list"
  events :: "'c event list"

definition emit :: "'c event \<Rightarrow> ('s, 'c) device \<Rightarrow> ('s, 'c) device" where
  "emit ev d = d\<lparr>events := events d @ [ev]\<rparr>"

text \<open>A call of a backend method that returns a value, and one that returns nothing.\<close>

definition call :: "'c event \<Rightarrow> ('s \<Rightarrow> 'a \<times> 's) \<Rightarrow> ('s, 'c) device \<Rightarrow> 'a \<times> ('s, 'c) device" where
  "call ev f d = (fst (f (backend d)), emit ev (d\<lparr>backend := snd (f (backend d))\<rparr>))"

definition call0 :: "'c event \<Rightarrow> ('s \<Rightarrow> 's) \<Rightarrow> ('s, 'c) device \<Rightarrow> ('s, 'c) device" where
  "call0 ev f d = emit ev (d\<lparr>backend := f (backend d)\<rparr>)"

text \<open>\<open>time.sleep(t)\<close>.\<close>

definition sleep :: "('s, 'c) env \<Rightarrow> rat \<Rightarrow> ('s, 'c) device \<Rightarrow> ('s, 'c) device" where
  "sleep E t d = call0 (EvSleep t) (b_elapse (bled E) t) d"

subsection \<open>\<open>_get_handle\<close>\<close>

definition get_handle ::
  "('s, 'c) env \<Rightarrow> uuid \<Rightarrow> ('s, 'c) device \<Rightarrow> (pyerror + handle) \<times> ('s, 'c) device" where
  "get_handle E u d =
     (case uuid_bytearray u of
        Inl e \<Rightarrow> (Inl e, d)
      | Inr bs \<Rightarrow>
          (case backend_type d of
             BLED112 \<Rightarrow>
               (let (h, d') = call (EvGetHandle bs) (b_get_handle (bled E) bs) d in (Inr h, d'))
           | GATTTOOL \<Rightarrow>
               (let (h, d') = call EvGatttool (g_get_handle (gatt E) (Inr bs)) d in (Inr h, d'))
           | OtherBackend \<Rightarrow> (Inl NotImplementedError, d)))"

subsection \<open>\<open>get_rssi\<close>\<close>

text \<open>
  The loop \<open>for i in range(0, 3)\<close>: \<open>Some rssi\<close> is the \<open>return rssi\<close> inside the loop,
  \<open>None\<close> is the loop running out.
\<close>

fun rssi_loop :: "('s, 'c) env \<Rightarrow> nat \<Rightarrow> ('s, 'c) device \<Rightarrow> int option \<times> ('s, 'c) device" where
  "rssi_loop E 0 d = (None, d)"
| "rssi_loop E (Suc n) d =
     (let (rssi, d1) = call EvGetRssi (b_get_rssi (bled E)) d in
      if rssi \<noteq> 25 then (Some rssi, d1)
      else rssi_loop E n (sleep E (1 / 10) d1))"

text \<open>After the loop the source has \<open>return Exception("get rssi failed")\<close>.\<close>

definition get_rssi :: "('s, 'c) env \<Rightarrow> ('s, 'c) device \<Rightarrow> (pyerror + pyval) \<times> ('s, 'c) device" where
  "get_rssi E d =
     (case backend_type d of
        BLED112 \<Rightarrow>
          (case rssi_loop E 3 d of
             (Some rssi, d') \<Rightarrow> (Inr (PInt rssi), d')
           | (None, d') \<Rightarrow> (Inr (PExceptionObject (PyException ''get rssi failed'')), d'))
      | GATTTOOL \<Rightarrow> (Inl NotImplementedError, d)
      | OtherBackend \<Rightarrow> (Inl NotImplementedError, d))"

subsection \<open>\<open>char_write\<close>\<close>

text \<open>
  \<open>sec_waited += 0.25\<close>. The counter is a Python float (an IEEE double) that starts at 0, so
  every value it takes is a multiple of 0.25. Below $2^{51}$ the sum is computed exactly. At
  $2^{51}$ the doubles are 0.5 apart: $2^{51} + 0.25$ lies halfway between two of them and is
  rounded to the even one, $2^{51}$ itself, so the counter stops growing there. The function
  is the double addition on the values the counter can take, the multiples of 0.25 from 0 to
  $2^{51}$.
\<close>

definition float_add_quarter :: "rat \<Rightarrow> rat" where
  "float_add_quarter w = (if w < 2 ^ 51 then w + 1 / 4 else w)"

text \<open>
  The wait loop. \<open>notifications\<close> is the reference fetched last, \<open>sec_waited\<close> the counter of
  the time slept. The timeout is any finite Python number, hence a rational; Python compares
  it with the counter exactly. The loop ends in \<open>Inr notifications\<close> when the list of the
  handle is long enough, in \<open>NoResponseError\<close> when the counter has reached the timeout, and
  in \<open>KeyError\<close> when the mapping has no key \<open>handle_recv\<close>. It need not end: \<open>None\<close> is the
  loop that runs forever.
\<close>

partial_function (option) wait_loop ::
  "('s, 'c) env \<Rightarrow> handle \<Rightarrow> int \<Rightarrow> rat \<Rightarrow> ('s \<Rightarrow> inbox) \<Rightarrow> rat \<Rightarrow> ('s, 'c) device
     \<Rightarrow> ((pyerror + ('s \<Rightarrow> inbox)) \<times> ('s, 'c) device) option" where
  "wait_loop E handle_recv num_packets bled112_timeout notifications sec_waited d =
     (case notifications (backend d) handle_recv of
        None \<Rightarrow> Some (Inl KeyError, d)
      | Some q \<Rightarrow>
          if int (length q) < num_packets then
            if sec_waited \<ge> bled112_timeout then Some (Inl (NoResponseError sec_waited), d)
            else
              wait_loop E handle_recv num_packets bled112_timeout
                (fst (call EvGetNotifications (b_get_notifications (bled E)) (sleep E (1 / 4) d)))
                (float_add_quarter sec_waited)
                (snd (call EvGetNotifications (b_get_notifications (bled E)) (sleep E (1 / 4) d)))
          else Some (Inr notifications, d))"

text \<open>
  The loop \<open>for i in range(0, num_packets)\<close>: it reads element 0 of the handle's list through
  the reference that the wait loop left, appends its bytes to \<open>value_list\<close> and has the
  backend remove element 0.
\<close>

fun assemble ::
  "('s, 'c) env \<Rightarrow> handle \<Rightarrow> ('s \<Rightarrow> inbox) \<Rightarrow> nat \<Rightarrow> bytes \<Rightarrow> ('s, 'c) device
     \<Rightarrow> (pyerror + bytes) \<times> ('s, 'c) device" where
  "assemble E handle_recv notifications 0 value_list d = (Inr value_list, d)"
| "assemble E handle_recv notifications (Suc n) value_list d =
     (case notifications (backend d) handle_recv of
        None \<Rightarrow> (Inl KeyError, d)
      | Some [] \<Rightarrow> (Inl IndexError, d)
      | Some (val # _) \<Rightarrow>
          assemble E handle_recv notifications n (value_list @ val)
            (call0 (EvRemoveNotification handle_recv 0)
               (b_remove_notification (bled E) handle_recv 0) d))"

text \<open>The loop \<open>for cb in self._callbacks[uuid_recv]: cb(bytearray(value_list))\<close>.\<close>

fun dispatch ::
  "('s, 'c) env \<Rightarrow> 'c list \<Rightarrow> bytes \<Rightarrow> ('s, 'c) device \<Rightarrow> (pyerror + unit) \<times> ('s, 'c) device" where
  "dispatch E [] v d = (Inr (), d)"
| "dispatch E (cb # cbs) v d =
     (case observer E cb v of
        Some e \<Rightarrow> (Inl e, emit (EvCallback cb v) d)
      | None \<Rightarrow> dispatch E cbs v (emit (EvCallback cb v) d))"

text \<open>\<open>None\<close> is the call that never returns, its wait loop running forever.\<close>

definition char_write ::
  "('s, 'c) env \<Rightarrow> uuid \<Rightarrow> bytes \<Rightarrow> bool \<Rightarrow> int \<Rightarrow> uuid \<Rightarrow> rat \<Rightarrow> ('s, 'c) device
     \<Rightarrow> ((pyerror + unit) \<times> ('s, 'c) device) option" where
  "char_write E uuid_write val wait_for_response num_packets uuid_recv bled112_timeout d =
     (case backend_type d of
        BLED112 \<Rightarrow>
          if wait_for_response \<and> num_packets \<le> 0
          then Some (Inl (ValueError ''num_packets must be greater than 0''), d)
          else
            (case get_handle E uuid_write d of
               (Inl e, d1) \<Rightarrow> Some (Inl e, d1)
             | (Inr handle_write, d1) \<Rightarrow>
            (case get_handle E uuid_recv d1 of
               (Inl e, d2) \<Rightarrow> Some (Inl e, d2)
             | (Inr handle_recv, d2) \<Rightarrow>
            (case call (EvCharWrite handle_write val) (b_char_write (bled E) handle_write val) d2 of
               (False, d3) \<Rightarrow> Some (Inl (PyException ''write failed''), d3)
             | (True, d3) \<Rightarrow>
                 if wait_for_response then
                   (case call EvGetNotifications (b_get_notifications (bled E)) d3 of
                      (notifications, d4) \<Rightarrow>
                   (case wait_loop E handle_recv num_packets bled112_timeout notifications 0 d4 of
                      None \<Rightarrow> None
                    | Some (Inl e, d5) \<Rightarrow> Some (Inl e, d5)
                    | Some (Inr notifications', d5) \<Rightarrow>
                   (case assemble E handle_recv notifications' (nat num_packets) [] d5 of
                      (Inl e, d6) \<Rightarrow> Some (Inl e, d6)
                    | (Inr value_list, d6) \<Rightarrow>
                        (case callbacks d6 uuid_recv of
                           None \<Rightarrow> Some (Inr (), d6)
                         | Some cbs \<Rightarrow> Some (dispatch E cbs value_list d6)))))
                 else Some (Inr (), d3))))
      | GATTTOOL \<Rightarrow>
          (case call EvGatttool (g_get_handle (gatt E) (Inl uuid_write)) d of
             (h, d1) \<Rightarrow>
               Some (Inr (), call0 EvGatttool (g_char_write (gatt E) h val wait_for_response) d1))
      | OtherBackend \<Rightarrow> Some (Inl NotImplementedError, d))"

subsection \<open>\<open>subscribe\<close>\<close>

text \<open>
  The first statement logs \<open>callback.__name__\<close>: with \<open>callback = None\<close> the attribute
  access raises \<open>AttributeError\<close>. A callback of type \<open>'c\<close> is a function object, which has a
  name.
\<close>

definition subscribe ::
  "('s, 'c) env \<Rightarrow> uuid \<Rightarrow> 'c option \<Rightarrow> bool \<Rightarrow> ('s, 'c) device
     \<Rightarrow> (pyerror + unit) \<times> ('s, 'c) device" where
  "subscribe E u callback indication d =
     (case callback of
        None \<Rightarrow> (Inl AttributeError, d)
      | Some _ \<Rightarrow>
          (case backend_type d of
             BLED112 \<Rightarrow>
               (case uuid_bytearray u of
                  Inl e \<Rightarrow> (Inl e, d)
                | Inr bs \<Rightarrow>
                    (let d1 = call0 (EvSubscribe bs indication)
                                (b_subscribe (bled E) bs indication) d
                     in case callback of
                          None \<Rightarrow> (Inr (), d1)
                        | Some cb \<Rightarrow>
                            (Inr (),
                             d1\<lparr>callbacks := (callbacks d1)
                                  (u \<mapsto> (case callbacks d1 u of None \<Rightarrow> [] | Some l \<Rightarrow> l) @ [cb])\<rparr>)))
           | GATTTOOL \<Rightarrow>
               (Inr (), call0 EvGatttool (g_subscribe (gatt E) u callback indication) d)
           | OtherBackend \<Rightarrow> (Inl NotImplementedError, d)))"

subsection \<open>The other public methods\<close>

definition bond :: "('s, 'c) env \<Rightarrow> ('s, 'c) device \<Rightarrow> (pyerror + unit) \<times> ('s, 'c) device" where
  "bond E d =
     (case backend_type d of
        BLED112 \<Rightarrow> (Inr (), call0 EvBond (b_bond (bled E)) d)
      | GATTTOOL \<Rightarrow> (Inr (), call0 EvGatttool (g_bond (gatt E)) d)
      | OtherBackend \<Rightarrow> (Inl NotImplementedError, d))"

definition connect ::
  "('s, 'c) env \<Rightarrow> rat \<Rightarrow> ('s, 'c) device \<Rightarrow> (pyerror + unit) \<times> ('s, 'c) device" where
  "connect E timeout d =
     (case backend_type d of
        BLED112 \<Rightarrow>
          (case call (EvConnect (mac_address d) timeout)
                  (b_connect (bled E) (mac_address d) timeout) d of
             (False, d1) \<Rightarrow> (Inl (NotConnectedError ''Connect failed''), d1)
           | (True, d1) \<Rightarrow> (Inr (), d1))
      | GATTTOOL \<Rightarrow> (Inr (), call0 EvGatttool (g_connect (gatt E) timeout) d)
      | OtherBackend \<Rightarrow> (Inl NotImplementedError, d))"

definition char_read ::
  "('s, 'c) env \<Rightarrow> uuid \<Rightarrow> ('s, 'c) device \<Rightarrow> (pyerror + bytes option) \<times> ('s, 'c) device" where
  "char_read E u d =
     (case backend_type d of
        BLED112 \<Rightarrow>
          (case get_handle E u d of
             (Inl e, d1) \<Rightarrow> (Inl e, d1)
           | (Inr None, d1) \<Rightarrow> (Inl (ValueError ''invalid UUID''), d1)
           | (Inr (Some h), d1) \<Rightarrow>
               (case call (EvCharRead (Some h)) (b_char_read (bled E) (Some h)) d1 of
                  (None, d2) \<Rightarrow> (Inl (PyException ''read failed''), d2)
                | (Some ret, d2) \<Rightarrow> (Inr (Some ret), d2)))
      | GATTTOOL \<Rightarrow>
          (case call EvGatttool (g_char_read_uuid (gatt E) u) d of (r, d1) \<Rightarrow> (Inr r, d1))
      | OtherBackend \<Rightarrow> (Inl NotImplementedError, d))"

definition encrypt :: "('s, 'c) env \<Rightarrow> ('s, 'c) device \<Rightarrow> (pyerror + unit) \<times> ('s, 'c) device" where
  "encrypt E d =
     (case backend_type d of
        BLED112 \<Rightarrow> (Inr (), call0 EvEncrypt (b_encrypt (bled E)) d)
      | GATTTOOL \<Rightarrow> (Inl NotImplementedError, d)
      | OtherBackend \<Rightarrow> (Inl NotImplementedError, d))"

definition run :: "('s, 'c) env \<Rightarrow> ('s, 'c) device \<Rightarrow> (pyerror + unit) \<times> ('s, 'c) device" where
  "run E d =
     (case backend_type d of
        BLED112 \<Rightarrow> (Inr (), call0 EvRun (b_run (bled E)) d)
      | GATTTOOL \<Rightarrow> (Inr (), call0 EvGatttool (g_run (gatt E)) d)
      | OtherBackend \<Rightarrow> (Inl NotImplementedError, d))"

definition stop :: "('s, 'c) env \<Rightarrow> ('s, 'c) device \<Rightarrow> (pyerror + unit) \<times> ('s, 'c) device" where
  "stop E d =
     (case backend_type d of
        BLED112 \<Rightarrow>
          (Inr (), call0 EvStop (b_stop (bled E)) (call0 EvDisconnect (b_disconnect (bled E)) d))
      | GATTTOOL \<Rightarrow> (Inr (), call0 EvGatttool (g_stop (gatt E)) d)
      | OtherBackend \<Rightarrow> (Inl NotImplementedError, d))"

subsection \<open>Sequences of public calls\<close>

text \<open>
  The public methods of a device, as a caller invokes them one after another. A call that
  raises leaves the device as it was when the exception left the method, and the caller may
  go on with the next call. A call that never returns has no next call: the sequence has no
  result (\<open>None\<close>).
\<close>

datatype 'c op =
    OpBond
  | OpConnect rat
  | OpCharRead uuid
  | OpCharWrite uuid bytes bool int uuid rat
  | OpEncrypt
  | OpGetRssi
  | OpRun
  | OpStop
  | OpSubscribe uuid "'c option" bool

fun perform :: "('s, 'c) env \<Rightarrow> 'c op \<Rightarrow> ('s, 'c) device \<Rightarrow> ('s, 'c) device option" where
  "perform E OpBond d = Some (snd (bond E d))"
| "perform E (OpConnect t) d = Some (snd (connect E t d))"
| "perform E (OpCharRead u) d = Some (snd (char_read E u d))"
| "perform E (OpCharWrite uw v w n ur t) d = map_option snd (char_write E uw v w n ur t d)"
| "perform E OpEncrypt d = Some (snd (encrypt E d))"
| "perform E OpGetRssi d = Some (snd (get_rssi E d))"
| "perform E OpRun d = Some (snd (run E d))"
| "perform E OpStop d = Some (snd (stop E d))"
| "perform E (OpSubscribe u cb i) d = Some (snd (subscribe E u cb i d))"

fun perform_all :: "('s, 'c) env \<Rightarrow> 'c op list \<Rightarrow> ('s, 'c) device \<Rightarrow> ('s, 'c) device option" where
  "perform_all E [] d = Some d"
| "perform_all E (x # xs) d =
     (case perform E x d of None \<Rightarrow> None | Some d' \<Rightarrow> perform_all E xs d')"

subsection \<open>Readings of the device\<close>

text \<open>
  The callbacks registered for an identifier: the list of its entry in \<open>_callbacks\<close>, no
  callback when it has no entry.
\<close>

definition registered :: "('s, 'c) device \<Rightarrow> uuid \<Rightarrow> 'c list" where
  "registered d u = (case callbacks d u of None \<Rightarrow> [] | Some cbs \<Rightarrow> cbs)"

text \<open>
  The reference and the device after \<open>k\<close> more rounds of the wait loop's body, each round
  being \<open>time.sleep(0.25)\<close> followed by \<open>get_notifications()\<close>.
\<close>

fun poll ::
  "('s, 'c) env \<Rightarrow> nat \<Rightarrow> ('s \<Rightarrow> inbox) \<times> ('s, 'c) device \<Rightarrow> ('s \<Rightarrow> inbox) \<times> ('s, 'c) device" where
  "poll E 0 p = p"
| "poll E (Suc k) p =
     poll E k (call EvGetNotifications (b_get_notifications (bled E)) (sleep E (1 / 4) (snd p)))"

text \<open>The calls of callbacks among the events, in order: which callback, with which value.\<close>

fun invoked :: "'c event list \<Rightarrow> ('c \<times> bytes) list" where
  "invoked [] = []"
| "invoked (EvCallback cb v # es) = (cb, v) # invoked es"
| "invoked (_ # es) = invoked es"

text \<open>
  A backend whose inbox never reaches \<open>n\<close> values for the handle: at the first test of the
  wait loop and after every further round, the mapping has a list for the handle and the list
  is shorter than \<open>n\<close>.
\<close>

definition never_enough ::
  "('s, 'c) env \<Rightarrow> handle \<Rightarrow> int \<Rightarrow> ('s \<Rightarrow> inbox) \<Rightarrow> ('s, 'c) device \<Rightarrow> bool" where
  "never_enough E h n nf d \<longleftrightarrow>
     (\<forall>k. case fst (poll E k (nf, d)) (backend (snd (poll E k (nf, d)))) h of
            None \<Rightarrow> False
          | Some q \<Rightarrow> int (length q) < n)"

section \<open>The specification's side\<close>

text \<open>
  The specification's characteristic identifier: a canonically hyphenated hexadecimal string,
  that is 8, 4, 4, 4 and 12 hexadecimal digits separated by four hyphens.
\<close>

definition is_hexdigit :: "char \<Rightarrow> bool" where
  "is_hexdigit c \<longleftrightarrow> c \<in> set ''0123456789abcdefABCDEF''"

definition hexdigit_value :: "char \<Rightarrow> nat" where
  "hexdigit_value c =
     (case map_of (zip ''0123456789abcdefABCDEF''
                     [0, 1, 2, 3, 4, 5, 6, 7, 8, 9, 10, 11, 12, 13, 14, 15, 10, 11, 12, 13, 14, 15]) c of
        Some v \<Rightarrow> v
      | None \<Rightarrow> 0)"

definition canonical_uuid :: "string \<Rightarrow> bool" where
  "canonical_uuid s \<longleftrightarrow>
     length s = 36 \<and>
     s ! 8 = CHR ''-'' \<and> s ! 13 = CHR ''-'' \<and> s ! 18 = CHR ''-'' \<and> s ! 23 = CHR ''-'' \<and>
     list_all is_hexdigit (take 8 s) \<and>
     list_all is_hexdigit (take 4 (drop 9 s)) \<and>
     list_all is_hexdigit (take 4 (drop 14 s)) \<and>
     list_all is_hexdigit (take 4 (drop 19 s)) \<and>
     list_all is_hexdigit (drop 24 s)"

text \<open>
  The specification's conversion, in its words: the hyphens are stripped and the remaining 32
  hexadecimal digits are decoded into 16 bytes, two digits a byte, the first digit the high
  half.
\<close>

definition spec_uuid_bytes :: "string \<Rightarrow> bytes" where
  "spec_uuid_bytes s =
     (let digits = filter (\<lambda>c. c \<noteq> CHR ''-'') s in
      map (\<lambda>i. word_of_nat (16 * hexdigit_value (digits ! (2 * i)) + hexdigit_value (digits ! (2 * i + 1))))
        [0..<16])"

text \<open>
  A backend whose \<open>get_notifications\<close> hands out its own mapping \<open>inb\<close>, so that the
  reference follows the backend's state, and whose \<open>remove_notification(handle, 0)\<close> takes
  the first value off that handle's list and leaves every other list alone.
\<close>

definition live_inbox :: "'s bled112 \<Rightarrow> ('s \<Rightarrow> inbox) \<Rightarrow> bool" where
  "live_inbox B inb \<longleftrightarrow>
     (\<forall>s. fst (b_get_notifications B s) = inb) \<and>
     (\<forall>s h x xs. inb s h = Some (x # xs) \<longrightarrow> inb (b_remove_notification B h 0 s) = (inb s)(h \<mapsto> xs))"

section \<open>A test double for the backend\<close>

text \<open>
  A backend for concrete runs, of the kind the specification's testable properties call a fake
  backend: the inbox is an association list, \<open>get_rssi\<close> plays back a list of readings (and
  the value 25 after it), \<open>get_handle\<close> looks the bytes up in a table, \<open>char_write\<close>
  reports \<open>f_write_ok\<close>, and one notification of \<open>f_pending\<close> arrives during each sleep.
  With \<open>live\<close> the backend hands out its own mapping; without, a copy of it (the
  specification's snapshot view).
\<close>

record fake =
  f_inbox :: "(handle \<times> bytes list) list"
  f_pending :: "(handle \<times> bytes) list"
  f_rssi :: "int list"
  f_handles :: "(bytes \<times> nat) list"
  f_write_ok :: bool

text \<open>The receiver thread: during one sleep the first pending notification arrives.\<close>

definition deliver :: "fake \<Rightarrow> fake" where
  "deliver s =
     (case f_pending s of
        [] \<Rightarrow> s
      | (h, v) # rest \<Rightarrow>
          s\<lparr>f_inbox := map (\<lambda>(k, q). if k = h then (k, q @ [v]) else (k, q)) (f_inbox s),
            f_pending := rest\<rparr>)"

definition fake_ref :: "fake \<Rightarrow> inbox" where
  "fake_ref s = map_of (f_inbox s)"

definition fake_bled :: "bool \<Rightarrow> fake bled112" where
  "fake_bled live =
     \<lparr>b_bond = (\<lambda>s. s),
      b_connect = (\<lambda>_ _ s. (True, s)),
      b_char_read = (\<lambda>_ s. (None, s)),
      b_char_write = (\<lambda>_ _ s. (f_write_ok s, s)),
      b_encrypt = (\<lambda>s. s),
      b_get_handle = (\<lambda>bs s. (map_of (f_handles s) bs, s)),
      b_get_notifications =
        (\<lambda>s. (if live then fake_ref else (\<lambda>_. fake_ref s), s)),
      b_get_rssi = (\<lambda>s. (case f_rssi s of [] \<Rightarrow> 25 | r # _ \<Rightarrow> r, s\<lparr>f_rssi := tl (f_rssi s)\<rparr>)),
      b_remove_notification =
        (\<lambda>h i s. s\<lparr>f_inbox := map (\<lambda>(k, q). if k = h then (k, take i q @ drop (Suc i) q) else (k, q))
                                   (f_inbox s)\<rparr>),
      b_run = (\<lambda>s. s),
      b_disconnect = (\<lambda>s. s),
      b_stop = (\<lambda>s. s),
      b_subscribe = (\<lambda>_ _ s. s),
      b_elapse = (\<lambda>_ s. deliver s)\<rparr>"

definition fake_gatt :: "(fake, nat) gatttool" where
  "fake_gatt =
     \<lparr>g_bond = (\<lambda>s. s), g_connect = (\<lambda>_ s. s), g_char_read_uuid = (\<lambda>_ s. (None, s)),
      g_get_handle = (\<lambda>_ s. (None, s)), g_char_write = (\<lambda>_ _ _ s. s), g_run = (\<lambda>s. s),
      g_stop = (\<lambda>s. s), g_subscribe = (\<lambda>_ _ _ s. s)\<rparr>"

text \<open>Callbacks are numbered; \<open>obs\<close> says which of them raise.\<close>

definition fake_env :: "bool \<Rightarrow> (nat \<Rightarrow> bytes \<Rightarrow> pyerror option) \<Rightarrow> (fake, nat) env" where
  "fake_env live obs = \<lparr>bled = fake_bled live, gatt = fake_gatt, observer = obs\<rparr>"

definition fake_device :: "fake \<Rightarrow> (uuid \<times> nat list) list \<Rightarrow> (fake, nat) device" where
  "fake_device s cbs =
     \<lparr>backend = s, backend_type = BLED112, mac_address = [], callbacks = map_of cbs, events = []\<rparr>"

text \<open>
  The characteristics \<open>2a19\<close> (handle 3, written to) and \<open>2a1c\<close> (handle 7, notifying); two
  notifications wait on handle 7.
\<close>

definition fake0 :: fake where
  "fake0 =
     \<lparr>f_inbox = [(Some 7, [[0x01, 0x02], [0x03, 0x04]])],
      f_pending = [],
      f_rssi = [25, 25, 25, -60],
      f_handles = [([0x2a, 0x19], 3), ([0x2a, 0x1c], 7)],
      f_write_ok = True\<rparr>"

text \<open>Callbacks that return, and callbacks of which number 0 raises.\<close>

definition quiet :: "nat \<Rightarrow> bytes \<Rightarrow> pyerror option" where
  "quiet cb v = None"

definition first_raises :: "nat \<Rightarrow> bytes \<Rightarrow> pyerror option" where
  "first_raises cb v = (if cb = 0 then Some (PyException ''observer failed'') else None)"

text \<open>
  A device on that backend with callbacks 0 and 1 registered, in this order, for \<open>2a1c\<close>, and
  the same device as \<open>char_write("2a19", [9], True, n, "2a1c", t)\<close> finds it after each of its
  first four calls of the backend.
\<close>

definition fake_dev :: "(fake, nat) device" where
  "fake_dev = fake_device fake0 [(Some ''2a1c'', [0, 1])]"

definition fake_d1 :: "(fake, nat) device" where
  "fake_d1 = fake_dev\<lparr>events := [EvGetHandle [0x2a, 0x19]]\<rparr>"

definition fake_d2 :: "(fake, nat) device" where
  "fake_d2 = fake_dev\<lparr>events := [EvGetHandle [0x2a, 0x19], EvGetHandle [0x2a, 0x1c]]\<rparr>"

definition fake_d3 :: "(fake, nat) device" where
  "fake_d3 = fake_dev\<lparr>events := [EvGetHandle [0x2a, 0x19], EvGetHandle [0x2a, 0x1c],
                                   EvCharWrite (Some 3) [9]]\<rparr>"

definition fake_d4 :: "(fake, nat) device" where
  "fake_d4 = fake_dev\<lparr>events := [EvGetHandle [0x2a, 0x19], EvGetHandle [0x2a, 0x1c],
                                   EvCharWrite (Some 3) [9], EvGetNotifications]\<rparr>"

text \<open>The device after both notifications were taken off handle 7.\<close>

definition fake_d6 :: "(fake, nat) device" where
  "fake_d6 = fake_dev\<lparr>backend := fake0\<lparr>f_inbox := [(Some 7, [])]\<rparr>,
                       events := [EvGetHandle [0x2a, 0x19], EvGetHandle [0x2a, 0x1c],
                                   EvCharWrite (Some 3) [9], EvGetNotifications,
                                   EvRemoveNotification (Some 7) 0, EvRemoveNotification (Some 7) 0]\<rparr>"

text \<open>
  The backend of the specification's test: nothing has arrived when the write is made, the
  two notifications arrive during the first two sleeps. \<open>late_dev\<close> is a device on it with the
  same two callbacks, \<open>late_d4\<close> the device when \<open>char_write\<close> enters its wait loop, \<open>late_d5\<close>
  when it leaves the loop, \<open>late_d6\<close> when both notifications are taken off.
\<close>

definition late0 :: fake where
  "late0 = fake0\<lparr>f_inbox := [(Some 7, [])],
                  f_pending := [(Some 7, [0x01, 0x02]), (Some 7, [0x03, 0x04])]\<rparr>"

definition late_dev :: "(fake, nat) device" where
  "late_dev = fake_device late0 [(Some ''2a1c'', [0, 1])]"

definition late_d1 :: "(fake, nat) device" where
  "late_d1 = late_dev\<lparr>events := [EvGetHandle [0x2a, 0x19]]\<rparr>"

definition late_d2 :: "(fake, nat) device" where
  "late_d2 = late_dev\<lparr>events := [EvGetHandle [0x2a, 0x19], EvGetHandle [0x2a, 0x1c]]\<rparr>"

definition late_d3 :: "(fake, nat) device" where
  "late_d3 = late_dev\<lparr>events := [EvGetHandle [0x2a, 0x19], EvGetHandle [0x2a, 0x1c],
                                   EvCharWrite (Some 3) [9]]\<rparr>"

definition late_d4 :: "(fake, nat) device" where
  "late_d4 = late_dev\<lparr>events := [EvGetHandle [0x2a, 0x19], EvGetHandle [0x2a, 0x1c],
                                   EvCharWrite (Some 3) [9], EvGetNotifications]\<rparr>"

definition late_d5 :: "(fake, nat) device" where
  "late_d5 = late_dev\<lparr>backend := fake0,
                       events := [EvGetHandle [0x2a, 0x19], EvGetHandle [0x2a, 0x1c],
                                   EvCharWrite (Some 3) [9], EvGetNotifications,
                                   EvSleep (1 / 4), EvGetNotifications,
                                   EvSleep (1 / 4), EvGetNotifications]\<rparr>"

definition late_d6 :: "(fake, nat) device" where
  "late_d6 = late_dev\<lparr>backend := fake0\<lparr>f_inbox := [(Some 7, [])]\<rparr>,
                       events := [EvGetHandle [0x2a, 0x19], EvGetHandle [0x2a, 0x1c],
                                   EvCharWrite (Some 3) [9], EvGetNotifications,
                                   EvSleep (1 / 4), EvGetNotifications,
                                   EvSleep (1 / 4), EvGetNotifications,
                                   EvRemoveNotification (Some 7) 0, EvRemoveNotification (Some 7) 0]\<rparr>"

text \<open>A device on which callback 0 was registered twice.\<close>

definition twice_dev :: "(fake, nat) device" where
  "twice_dev = fake_device fake0 [(Some ''2a1c'', [0, 0])]"

section \<open>The conversion of a UUID\<close>

lemma to_int_hexdigit: "is_hexdigit c \<Longrightarrow> to_int c = Some (hexdigit_value c)"
  unfolding is_hexdigit_def
  by (simp, elim disjE; simp add: to_int_def hexdigit_value_def)

lemma hexdigit_not_hyphen: "is_hexdigit c \<Longrightarrow> c \<noteq> CHR ''-''"
  unfolding is_hexdigit_def by auto


lemma hex_pairs_decode:
  "list_all is_hexdigit ds \<Longrightarrow> even (length ds) \<Longrightarrow>
   hex_pairs ds =
     Inr (map (\<lambda>i. word_of_nat (16 * hexdigit_value (ds ! (2 * i)) + hexdigit_value (ds ! (2 * i + 1))))
            [0..<length ds div 2])"
proof (induction ds rule: hex_pairs.induct)
  case (1 a b cs)
  let ?f = "\<lambda>ds i. (word_of_nat (16 * hexdigit_value (ds ! (2 * i)) + hexdigit_value (ds ! (2 * i + 1))) :: byte)"
  from 1 have IH: "hex_pairs cs = Inr (map (?f cs) [0..<length cs div 2])"
    by (simp add: to_int_hexdigit)
  have "map (?f (a # b # cs)) [0..<Suc (length cs div 2)]
      = ?f (a # b # cs) 0 # map (\<lambda>i. ?f (a # b # cs) (Suc i)) [0..<length cs div 2]"
    by (simp only: map_upt_Suc)
  also have "\<dots> = word_of_nat (16 * hexdigit_value a + hexdigit_value b) # map (?f cs) [0..<length cs div 2]"
    by simp
  finally show ?case using 1(2) IH by (simp add: to_int_hexdigit)
qed simp_all

lemma filter_hexdigits: "list_all is_hexdigit ds \<Longrightarrow> filter (\<lambda>c. c \<noteq> CHR ''-'') ds = ds"
  by (induction ds) (auto dest: hexdigit_not_hyphen)

lemma canonical_uuid_split:
  assumes "canonical_uuid s"
  shows "s = take 8 s @ CHR ''-'' # take 4 (drop 9 s) @ CHR ''-'' # take 4 (drop 14 s) @ CHR ''-'' #
             take 4 (drop 19 s) @ CHR ''-'' # drop 24 s"
proof -
  from assms have len: "length s = 36" and h: "s ! 8 = CHR ''-''" "s ! 13 = CHR ''-''"
      "s ! 18 = CHR ''-''" "s ! 23 = CHR ''-''"
    by (simp_all add: canonical_uuid_def)
  have a: "s = take 8 s @ s ! 8 # drop 9 s"
    using id_take_nth_drop [of 8 s] len by simp
  have b: "drop 9 s = take 4 (drop 9 s) @ s ! 13 # drop 14 s"
    using id_take_nth_drop [of 4 "drop 9 s"] len by simp
  have c: "drop 14 s = take 4 (drop 14 s) @ s ! 18 # drop 19 s"
    using id_take_nth_drop [of 4 "drop 14 s"] len by simp
  have d: "drop 19 s = take 4 (drop 19 s) @ s ! 23 # drop 24 s"
    using id_take_nth_drop [of 4 "drop 19 s"] len by simp
  show ?thesis
    using a b c d h by metis
qed

lemma canonical_uuid_digits:
  assumes "canonical_uuid s"
  shows "replace_hyphens s = take 8 s @ take 4 (drop 9 s) @ take 4 (drop 14 s) @ take 4 (drop 19 s) @ drop 24 s"
    and "list_all is_hexdigit (replace_hyphens s)"
    and "length (replace_hyphens s) = 32"
proof -
  from assms have hx: "list_all is_hexdigit (take 8 s)" "list_all is_hexdigit (take 4 (drop 9 s))"
     "list_all is_hexdigit (take 4 (drop 14 s))" "list_all is_hexdigit (take 4 (drop 19 s))"
     "list_all is_hexdigit (drop 24 s)" and len: "length s = 36"
    by (simp_all add: canonical_uuid_def)
  have "replace_hyphens s = replace_hyphens (take 8 s @ CHR ''-'' # take 4 (drop 9 s) @ CHR ''-'' # take 4 (drop 14 s) @ CHR ''-'' #
             take 4 (drop 19 s) @ CHR ''-'' # drop 24 s)"
    using canonical_uuid_split [OF assms] by simp
  also have "\<dots> = take 8 s @ take 4 (drop 9 s) @ take 4 (drop 14 s) @ take 4 (drop 19 s) @ drop 24 s"
    unfolding replace_hyphens_def using hx by (simp add: filter_hexdigits)
  finally show r: "replace_hyphens s = take 8 s @ take 4 (drop 9 s) @ take 4 (drop 14 s) @ take 4 (drop 19 s) @ drop 24 s" .
  show "list_all is_hexdigit (replace_hyphens s)" unfolding r using hx by simp
  show "length (replace_hyphens s) = 32" unfolding r using len by simp
qed

text \<open>
  Claim C7. For every canonically hyphenated UUID string, \<open>_uuid_bytearray\<close> returns (it does
  not raise) the 16 bytes obtained by stripping the hyphens and decoding the 32 hexadecimal
  digits; being a function of the string, the result is determined by it. In particular
  \<open>0000XXXX-0000-1000-8000-00805F9B34FB\<close> gives the bytes
  \<open>00 00 XX XX 00 00 10 00 80 00 00 80 5F 9B 34 FB\<close> for any four hexadecimal digits.
\<close>

theorem uuid_bytearray_canonical:
  "(canonical_uuid s \<longrightarrow>
      uuid_bytearray (Some s) = Inr (spec_uuid_bytes s) \<and> length (spec_uuid_bytes s) = 16)
   \<and> (is_hexdigit x1 \<and> is_hexdigit x2 \<and> is_hexdigit x3 \<and> is_hexdigit x4 \<longrightarrow>
      uuid_bytearray (Some (''0000'' @ [x1, x2, x3, x4] @ ''-0000-1000-8000-00805F9B34FB''))
        = Inr [0x00, 0x00,
               word_of_nat (16 * hexdigit_value x1 + hexdigit_value x2),
               word_of_nat (16 * hexdigit_value x3 + hexdigit_value x4),
               0x00, 0x00, 0x10, 0x00, 0x80, 0x00, 0x00, 0x80, 0x5F, 0x9B, 0x34, 0xFB])"
proof (intro conjI impI)
  assume c: "canonical_uuid s"
  have "uuid_bytearray (Some s) = hex_pairs (replace_hyphens s)"
    using canonical_uuid_digits(3) [OF c] by (simp add: uuid_bytearray_def unhexlify_def)
  also have "\<dots> = Inr (spec_uuid_bytes s)"
    using hex_pairs_decode [OF canonical_uuid_digits(2) [OF c]] canonical_uuid_digits(3) [OF c]
    by (simp add: spec_uuid_bytes_def replace_hyphens_def Let_def)
  finally show "uuid_bytearray (Some s) = Inr (spec_uuid_bytes s)" .
  show "length (spec_uuid_bytes s) = 16" by (simp add: spec_uuid_bytes_def Let_def)
next
  assume h: "is_hexdigit x1 \<and> is_hexdigit x2 \<and> is_hexdigit x3 \<and> is_hexdigit x4"
  then have ne: "x1 \<noteq> CHR ''-''" "x2 \<noteq> CHR ''-''" "x3 \<noteq> CHR ''-''" "x4 \<noteq> CHR ''-''"
    by (auto dest: hexdigit_not_hyphen)
  have d: "to_int CHR ''0'' = Some 0" "to_int CHR ''1'' = Some 1" "to_int CHR ''8'' = Some 8"
    "to_int CHR ''5'' = Some 5" "to_int CHR ''F'' = Some 15" "to_int CHR ''9'' = Some 9"
    "to_int CHR ''B'' = Some 11" "to_int CHR ''3'' = Some 3" "to_int CHR ''4'' = Some 4"
    by (simp_all add: to_int_def)
  show "uuid_bytearray (Some (''0000'' @ [x1, x2, x3, x4] @ ''-0000-1000-8000-00805F9B34FB''))
        = Inr [0x00, 0x00,
               word_of_nat (16 * hexdigit_value x1 + hexdigit_value x2),
               word_of_nat (16 * hexdigit_value x3 + hexdigit_value x4),
               0x00, 0x00, 0x10, 0x00, 0x80, 0x00, 0x00, 0x80, 0x5F, 0x9B, 0x34, 0xFB]"
    using h ne by (simp add: uuid_bytearray_def unhexlify_def replace_hyphens_def d to_int_hexdigit)
qed

theorem uuid_bytearray_canonical_witness:
  "canonical_uuid ''0000aB12-0000-1000-8000-00805F9B34FB''
   \<and> uuid_bytearray (Some ''0000aB12-0000-1000-8000-00805F9B34FB'')
       = Inr [0x00, 0x00, 0xAB, 0x12, 0x00, 0x00, 0x10, 0x00, 0x80, 0x00, 0x00, 0x80, 0x5F, 0x9B, 0x34, 0xFB]
   \<and> spec_uuid_bytes ''0000aB12-0000-1000-8000-00805F9B34FB''
       = [0x00, 0x00, 0xAB, 0x12, 0x00, 0x00, 0x10, 0x00, 0x80, 0x00, 0x00, 0x80, 0x5F, 0x9B, 0x34, 0xFB]
   \<and> is_hexdigit CHR ''a'' \<and> is_hexdigit CHR ''B'' \<and> is_hexdigit CHR ''1'' \<and> is_hexdigit CHR ''2''"
proof -
  have c: "canonical_uuid ''0000aB12-0000-1000-8000-00805F9B34FB''"
    by (simp add: canonical_uuid_def is_hexdigit_def)
  have h: "is_hexdigit CHR ''a'' \<and> is_hexdigit CHR ''B'' \<and> is_hexdigit CHR ''1'' \<and> is_hexdigit CHR ''2''"
    by (simp add: is_hexdigit_def)
  have v: "hexdigit_value CHR ''a'' = 10" "hexdigit_value CHR ''B'' = 11" "hexdigit_value CHR ''1'' = 1"
     "hexdigit_value CHR ''2'' = 2"
    by (simp_all add: hexdigit_value_def)
  note t = uuid_bytearray_canonical [of "''0000aB12-0000-1000-8000-00805F9B34FB''"
      "CHR ''a''" "CHR ''B''" "CHR ''1''" "CHR ''2''"]
  from t c have e1: "uuid_bytearray (Some ''0000aB12-0000-1000-8000-00805F9B34FB'')
      = Inr (spec_uuid_bytes ''0000aB12-0000-1000-8000-00805F9B34FB'')"
    by blast
  from t h v have e2: "uuid_bytearray (Some ''0000aB12-0000-1000-8000-00805F9B34FB'')
      = Inr [0x00, 0x00, 0xAB, 0x12, 0x00, 0x00, 0x10, 0x00, 0x80, 0x00, 0x00, 0x80, 0x5F, 0x9B, 0x34, 0xFB]"
    by simp
  from e1 e2 have s: "spec_uuid_bytes ''0000aB12-0000-1000-8000-00805F9B34FB''
       = [0x00, 0x00, 0xAB, 0x12, 0x00, 0x00, 0x10, 0x00, 0x80, 0x00, 0x00, 0x80, 0x5F, 0x9B, 0x34, 0xFB]"
    by (simp only: sum.inject)
  from c e2 s h show ?thesis by blast
qed


section \<open>Calls that fail at once\<close>

text \<open>
  Claim C9. \<open>subscribe\<close> with \<open>callback = None\<close> raises \<open>AttributeError\<close>, whatever the
  backend, and the device is as before: no backend method was called, nothing was recorded,
  the callback registry is unchanged.
\<close>

theorem subscribe_none_raises:
  "subscribe E u None indication d = (Inl AttributeError, d)"
  by (simp add: subscribe_def)

theorem subscribe_none_raises_witness:
  "subscribe (fake_env True (\<lambda>_ _. None)) (Some ''2a1c'') None False (fake_device fake0 [])
     = (Inl AttributeError, fake_device fake0 [])"
  using subscribe_none_raises [of "fake_env True (\<lambda>_ _. None)" "Some ''2a1c''" False
      "fake_device fake0 []"]
  by simp

text \<open>
  Claim C6. On a BLED112 device, \<open>char_write\<close> with \<open>wait_for_response\<close> and
  \<open>num_packets \<le> 0\<close> raises \<open>ValueError\<close> and the device is as before: no handle was
  resolved, nothing was written to the backend, the inbox was not read.
\<close>

theorem char_write_nonpositive_num_packets:
  "backend_type d = BLED112 \<Longrightarrow> num_packets \<le> 0 \<Longrightarrow>
   char_write E uuid_write val True num_packets uuid_recv bled112_timeout d =
     Some (Inl (ValueError ''num_packets must be greater than 0''), d)"
  by (simp add: char_write_def)

theorem char_write_nonpositive_num_packets_witness:
  "backend_type (fake_device fake0 []) = BLED112 \<and> (0 :: int) \<le> 0 \<and>
   char_write (fake_env True (\<lambda>_ _. None)) (Some ''2a19'') [1] True 0 (Some ''2a1c'') 5
       (fake_device fake0 [])
     = Some (Inl (ValueError ''num_packets must be greater than 0''), fake_device fake0 []) \<and>
   events (fake_device fake0 []) = []"
  using char_write_nonpositive_num_packets [of "fake_device fake0 []" 0 "fake_env True (\<lambda>_ _. None)"
      "Some ''2a19''" "[1]" "Some ''2a1c''" 5]
  by (simp add: fake_device_def)

text \<open>
  Claim C3. The claim is that \<open>char_write\<close> without \<open>wait_for_response\<close> does not resolve
  \<open>uuid_recv\<close> and succeeds when it is \<open>None\<close>. The code resolves both identifiers before it
  writes: with \<open>uuid_recv = None\<close> (the default) and a write identifier that decodes, the call
  raises \<open>AttributeError\<close> and the only backend method called is \<open>get_handle\<close> for the write
  identifier; the characteristic is never written.
\<close>

theorem char_write_recv_none:
  assumes "backend_type d = BLED112" and "uuid_bytearray uuid_write = Inr bs"
  shows "\<exists>d'. char_write E uuid_write val False num_packets None bled112_timeout d
                = Some (Inl AttributeError, d')
              \<and> events d' = events d @ [EvGetHandle bs]"
  using assms
  by (simp add: char_write_def get_handle_def call_def emit_def uuid_bytearray_def split: prod.splits)

lemma uuid_2a19: "uuid_bytearray (Some ''2a19'') = Inr [0x2a, 0x19]"
  by (simp add: uuid_bytearray_def unhexlify_def replace_hyphens_def to_int_def)

lemma uuid_2a1c: "uuid_bytearray (Some ''2a1c'') = Inr [0x2a, 0x1c]"
  by (simp add: uuid_bytearray_def unhexlify_def replace_hyphens_def to_int_def)

theorem char_write_recv_none_witness:
  "backend_type (fake_device fake0 []) = BLED112
   \<and> uuid_bytearray (Some ''2a19'') = Inr [0x2a, 0x19]
   \<and> (\<exists>d'. char_write (fake_env True (\<lambda>_ _. None)) (Some ''2a19'') [1] False 1 None 5
               (fake_device fake0 []) = Some (Inl AttributeError, d')
            \<and> events d' = [EvGetHandle [0x2a, 0x19]])"
  using char_write_recv_none [of "fake_device fake0 []" "Some ''2a19''" "[0x2a, 0x19]"
      "fake_env True (\<lambda>_ _. None)" "[1]" 1 5] uuid_2a19
  by (simp add: fake_device_def)

section \<open>\<open>get_rssi\<close>\<close>

text \<open>
  Claim C1. The claim is that \<open>get_rssi\<close> raises when three readings in a row are the sentinel
  25. The code asks the backend three times, sleeping 0.1 s after each sentinel, and then
  returns normally: the value returned is an exception instance, nothing is raised.
\<close>

theorem get_rssi_three_sentinels:
  assumes "backend_type d = BLED112"
    and "b_get_rssi (bled E) (backend d) = (25, s1)"
    and "b_get_rssi (bled E) (b_elapse (bled E) (1 / 10) s1) = (25, s2)"
    and "b_get_rssi (bled E) (b_elapse (bled E) (1 / 10) s2) = (25, s3)"
  shows "get_rssi E d =
     (Inr (PExceptionObject (PyException ''get rssi failed'')),
      d\<lparr>backend := b_elapse (bled E) (1 / 10) s3,
        events := events d @ [EvGetRssi, EvSleep (1 / 10), EvGetRssi, EvSleep (1 / 10),
                              EvGetRssi, EvSleep (1 / 10)]\<rparr>)"
  using assms
  by (simp add: get_rssi_def numeral_3_eq_3 call_def call0_def sleep_def emit_def)

theorem get_rssi_three_sentinels_witness:
  "backend_type (fake_device fake0 []) = BLED112
   \<and> get_rssi (fake_env True (\<lambda>_ _. None)) (fake_device fake0 []) =
     (Inr (PExceptionObject (PyException ''get rssi failed'')),
      (fake_device fake0 [])\<lparr>backend := fake0\<lparr>f_rssi := [-60]\<rparr>,
        events := [EvGetRssi, EvSleep (1 / 10), EvGetRssi, EvSleep (1 / 10),
                   EvGetRssi, EvSleep (1 / 10)]\<rparr>)"
  using get_rssi_three_sentinels [of "fake_device fake0 []" "fake_env True (\<lambda>_ _. None)"
      "fake0\<lparr>f_rssi := [25, 25, -60]\<rparr>" "fake0\<lparr>f_rssi := [25, -60]\<rparr>" "fake0\<lparr>f_rssi := [-60]\<rparr>"]
  by (simp add: fake_device_def fake_env_def fake_bled_def fake0_def deliver_def)

section \<open>What every method keeps\<close>

lemma emit_simps [simp]:
  "backend (emit ev d) = backend d" "backend_type (emit ev d) = backend_type d"
  "callbacks (emit ev d) = callbacks d" "events (emit ev d) = events d @ [ev]"
  "mac_address (emit ev d) = mac_address d"
  by (simp_all add: emit_def)

lemma call_simps [simp]:
  "backend_type (snd (call ev f d)) = backend_type d"
  "callbacks (snd (call ev f d)) = callbacks d"
  "events (snd (call ev f d)) = events d @ [ev]"
  "backend (snd (call ev f d)) = snd (f (backend d))"
  "fst (call ev f d) = fst (f (backend d))"
  by (simp_all add: call_def)

lemma call0_simps [simp]:
  "backend_type (call0 ev g d) = backend_type d"
  "callbacks (call0 ev g d) = callbacks d"
  "events (call0 ev g d) = events d @ [ev]"
  "backend (call0 ev g d) = g (backend d)"
  by (simp_all add: call0_def)

lemma sleep_simps [simp]:
  "backend_type (sleep E t d) = backend_type d"
  "callbacks (sleep E t d) = callbacks d"
  "events (sleep E t d) = events d @ [EvSleep t]"
  "backend (sleep E t d) = b_elapse (bled E) t (backend d)"
  by (simp_all add: sleep_def)

lemma get_handle_keeps:
  "callbacks (snd (get_handle E u d)) = callbacks d"
  "backend_type (snd (get_handle E u d)) = backend_type d"
  by (simp_all add: get_handle_def case_prod_unfold split: sum.splits backend_kind.splits)

lemma rssi_loop_keeps:
  "callbacks (snd (rssi_loop E n d)) = callbacks d \<and> backend_type (snd (rssi_loop E n d)) = backend_type d"
  by (induction n arbitrary: d) (simp_all add: case_prod_unfold Let_def)

lemma poll_keeps:
  "callbacks (snd (poll E k p)) = callbacks (snd p)
   \<and> backend_type (snd (poll E k p)) = backend_type (snd p)
   \<and> events (snd (poll E k p)) = events (snd p) @ concat (replicate k [EvSleep (1 / 4), EvGetNotifications])"
proof (induction k arbitrary: p)
  case 0
  then show ?case by simp
next
  case (Suc k)
  have "concat (replicate k [EvSleep (1 / 4), EvGetNotifications :: 'b event]) @ [EvSleep (1 / 4), EvGetNotifications]
      = [EvSleep (1 / 4), EvGetNotifications] @ concat (replicate k [EvSleep (1 / 4), EvGetNotifications])"
    by (induction k) simp_all
  with Suc show ?case by simp
qed

lemma poll_Suc:
  "poll E (Suc k) (nf, d) =
     poll E k (fst (call EvGetNotifications (b_get_notifications (bled E)) (sleep E (1 / 4) d)),
               snd (call EvGetNotifications (b_get_notifications (bled E)) (sleep E (1 / 4) d)))"
  by (simp only: poll.simps snd_conv prod.collapse)

text \<open>
  Where the wait loop returns, it returns after some number \<open>k\<close> of rounds, with the device
  and the reference of that moment, and what it returns is decided by the list found then.
\<close>

lemma wait_loop_returns:
  assumes "wait_loop E h n T nf w d = Some y"
  shows "\<exists>k. snd y = snd (poll E k (nf, d))
     \<and> (case fst (poll E k (nf, d)) (backend (snd (poll E k (nf, d)))) h of
          None \<Rightarrow> fst y = Inl KeyError
        | Some q \<Rightarrow>
            if int (length q) < n
            then fst y = Inl (NoResponseError ((float_add_quarter ^^ k) w)) \<and> T \<le> (float_add_quarter ^^ k) w
            else fst y = Inr (fst (poll E k (nf, d))))"
proof (rule wait_loop.raw_induct [where P = "\<lambda>E h n T nf w d y.
     \<exists>k. snd y = snd (poll E k (nf, d))
     \<and> (case fst (poll E k (nf, d)) (backend (snd (poll E k (nf, d)))) h of
          None \<Rightarrow> fst y = Inl KeyError
        | Some q \<Rightarrow>
            if int (length q) < n
            then fst y = Inl (NoResponseError ((float_add_quarter ^^ k) w)) \<and> T \<le> (float_add_quarter ^^ k) w
            else fst y = Inr (fst (poll E k (nf, d))))", OF _ assms], goal_cases)
  case (1 wl E h n T nf w d y)
  show ?case
  proof (cases "nf (backend d) h")
    case None
    with 1(2) have "y = (Inl KeyError, d)" by simp
    with None show ?thesis by (intro exI [of _ 0]) simp
  next
    case (Some q)
    show ?thesis
    proof (cases "int (length q) < n \<and> \<not> T \<le> w")
      case False
      with Some 1(2) show ?thesis by (intro exI [of _ 0]) (auto split: if_splits)
    next
      case True
      let ?p = "call EvGetNotifications (b_get_notifications (bled E)) (sleep E (1 / 4) d)"
      from 1(2) Some True have "wl E h n T (fst ?p) (float_add_quarter w) (snd ?p) = Some y"
        by simp
      from 1(1) [OF this] obtain k where
        k: "snd y = snd (poll E k (fst ?p, snd ?p))
          \<and> (case fst (poll E k (fst ?p, snd ?p)) (backend (snd (poll E k (fst ?p, snd ?p)))) h of
               None \<Rightarrow> fst y = Inl KeyError
             | Some q \<Rightarrow>
                 if int (length q) < n
                 then fst y = Inl (NoResponseError ((float_add_quarter ^^ k) (float_add_quarter w)))
                      \<and> T \<le> (float_add_quarter ^^ k) (float_add_quarter w)
                 else fst y = Inr (fst (poll E k (fst ?p, snd ?p))))"
        by blast
      have f: "(float_add_quarter ^^ k) (float_add_quarter w) = (float_add_quarter ^^ Suc k) w"
        by (simp add: funpow_swap1)
      from k have "snd y = snd (poll E (Suc k) (nf, d))
          \<and> (case fst (poll E (Suc k) (nf, d)) (backend (snd (poll E (Suc k) (nf, d)))) h of
               None \<Rightarrow> fst y = Inl KeyError
             | Some q \<Rightarrow>
                 if int (length q) < n
                 then fst y = Inl (NoResponseError ((float_add_quarter ^^ Suc k) w))
                      \<and> T \<le> (float_add_quarter ^^ Suc k) w
                 else fst y = Inr (fst (poll E (Suc k) (nf, d))))"
        by (simp only: poll_Suc f)
      then show ?thesis by (rule exI [of _ "Suc k"])
    qed
  qed
qed

lemma wait_loop_keeps:
  assumes "wait_loop E h n T nf w d = Some (r, d')"
  shows "callbacks d' = callbacks d" and "backend_type d' = backend_type d"
  using wait_loop_returns [OF assms] poll_keeps [of E _ "(nf, d)"] by auto


lemma assemble_keeps:
  "callbacks (snd (assemble E h nf k acc d)) = callbacks d
   \<and> backend_type (snd (assemble E h nf k acc d)) = backend_type d"
  by (induction k arbitrary: acc d) (simp_all split: option.splits list.splits)

lemma dispatch_keeps:
  "callbacks (snd (dispatch E cbs v d)) = callbacks d
   \<and> backend_type (snd (dispatch E cbs v d)) = backend_type d
   \<and> backend (snd (dispatch E cbs v d)) = backend d"
  by (induction cbs arbitrary: d) (simp_all split: option.splits)

lemma dispatch_registered:
  "(case callbacks d u of None \<Rightarrow> Some (Inr (), d) | Some cbs \<Rightarrow> Some (dispatch E cbs v d))
     = Some (dispatch E (registered d u) v d)"
  by (simp add: registered_def split: option.splits)

text \<open>The run of \<open>char_write\<close> up to its wait loop, and what it does from there.\<close>

lemma char_write_wait_path:
  assumes "backend_type d = BLED112" and "0 < n"
    and "get_handle E uw d = (Inr hw, d1)"
    and "get_handle E ur d1 = (Inr hr, d2)"
    and "call (EvCharWrite hw v) (b_char_write (bled E) hw v) d2 = (True, d3)"
    and "call EvGetNotifications (b_get_notifications (bled E)) d3 = (nf, d4)"
  shows "char_write E uw v True n ur T d =
     (case wait_loop E hr n T nf 0 d4 of
        None \<Rightarrow> None
      | Some (Inl e, d5) \<Rightarrow> Some (Inl e, d5)
      | Some (Inr nf', d5) \<Rightarrow>
          (case assemble E hr nf' (nat n) [] d5 of
             (Inl e, d6) \<Rightarrow> Some (Inl e, d6)
           | (Inr value_list, d6) \<Rightarrow> Some (dispatch E (registered d6 ur) value_list d6)))"
  using assms
  by (simp add: char_write_def registered_def split: option.splits prod.splits sum.splits)

lemma char_write_keeps:
  assumes "char_write E uw v wfr n ur T d = Some (r, d')"
  shows "callbacks d' = callbacks d \<and> backend_type d' = backend_type d"
proof (cases "backend_type d")
  case BLED112
  obtain r1 d1 where g1: "get_handle E uw d = (r1, d1)" by (cases "get_handle E uw d")
  obtain r2 d2 where g2: "get_handle E ur d1 = (r2, d2)" by (cases "get_handle E ur d1")
  have k1: "callbacks d1 = callbacks d" "backend_type d1 = backend_type d"
    using get_handle_keeps [of E uw d] g1 by simp_all
  have k2: "callbacks d2 = callbacks d" "backend_type d2 = backend_type d"
    using get_handle_keeps [of E ur d1] g2 k1 by simp_all
  show ?thesis
  proof (cases "wfr \<and> n \<le> 0")
    case True
    with BLED112 assms show ?thesis by (simp add: char_write_def)
  next
    case guard: False
    show ?thesis
    proof (cases r1)
      case (Inl e)
      with BLED112 guard g1 k1 assms show ?thesis by (auto simp add: char_write_def)
    next
      case r1: (Inr hw)
      show ?thesis
      proof (cases r2)
        case (Inl e)
        with BLED112 guard g1 g2 r1 k2 assms show ?thesis by (auto simp add: char_write_def)
      next
        case r2: (Inr hr)
        obtain ok d3 where w: "call (EvCharWrite hw v) (b_char_write (bled E) hw v) d2 = (ok, d3)"
          by (cases "call (EvCharWrite hw v) (b_char_write (bled E) hw v) d2")
        have k3: "callbacks d3 = callbacks d" "backend_type d3 = backend_type d"
          using call_simps(1,2) [of "EvCharWrite hw v" "b_char_write (bled E) hw v" d2] w k2 by simp_all
        obtain nf d4 where p: "call EvGetNotifications (b_get_notifications (bled E)) d3 = (nf, d4)"
          by (cases "call EvGetNotifications (b_get_notifications (bled E)) d3")
        have k4: "callbacks d4 = callbacks d" "backend_type d4 = backend_type d"
          using call_simps(1,2) [of EvGetNotifications "b_get_notifications (bled E)" d3] p k3 by simp_all
        show ?thesis
        proof (cases "ok \<and> wfr")
          case False
          with BLED112 guard g1 g2 r1 r2 w k3 assms show ?thesis
            by (cases ok) (auto simp add: char_write_def)
        next
          case True
          with guard have pos: "0 < n" by simp
          from True w have w': "call (EvCharWrite hw v) (b_char_write (bled E) hw v) d2 = (True, d3)"
            by simp
          from g1 r1 have g1': "get_handle E uw d = (Inr hw, d1)" by simp
          from g2 r2 have g2': "get_handle E ur d1 = (Inr hr, d2)" by simp
          note path = char_write_wait_path [OF BLED112 pos g1' g2' w' p, of T]
          from assms True path obtain y where l: "wait_loop E hr n T nf 0 d4 = Some y"
            by (cases "wait_loop E hr n T nf 0 d4") simp_all
          obtain r5 d5 where y: "y = (r5, d5)" by (cases y)
          have k5: "callbacks d5 = callbacks d" "backend_type d5 = backend_type d"
            using wait_loop_keeps [OF l [unfolded y]] k4 by simp_all
          show ?thesis
          proof (cases r5)
            case (Inl e)
            with True assms path l y k5 show ?thesis by simp
          next
            case r5: (Inr nf')
            obtain r6 d6 where a: "assemble E hr nf' (nat n) [] d5 = (r6, d6)"
              by (cases "assemble E hr nf' (nat n) [] d5")
            have k6: "callbacks d6 = callbacks d" "backend_type d6 = backend_type d"
              using assemble_keeps [of E hr nf' "nat n" "[]" d5] a k5 by simp_all
            show ?thesis
            proof (cases r6)
              case (Inl e)
              with True assms path l y r5 a k6 show ?thesis by simp
            next
              case (Inr vl)
              with True assms path l y r5 a have "(r, d') = dispatch E (registered d6 ur) vl d6"
                by simp
              then have "d' = snd (dispatch E (registered d6 ur) vl d6)"
                by (metis snd_conv)
              with k6 dispatch_keeps [of E "registered d6 ur" vl d6] show ?thesis by simp
            qed
          qed
        qed
      qed
    qed
  qed
next
  case GATTTOOL
  with assms show ?thesis by (auto simp add: char_write_def case_prod_unfold)
next
  case OtherBackend
  with assms show ?thesis by (auto simp add: char_write_def)
qed

lemma subscribe_callbacks:
  "callbacks (snd (subscribe E u cbo i d)) =
     (case cbo of
        Some cb \<Rightarrow>
          if backend_type d = BLED112 \<and> fst (subscribe E u cbo i d) = Inr ()
          then (callbacks d)(u \<mapsto> registered d u @ [cb]) else callbacks d
      | None \<Rightarrow> callbacks d)"
  "backend_type (snd (subscribe E u cbo i d)) = backend_type d"
  by (simp_all add: subscribe_def registered_def Let_def
      split: option.splits backend_kind.splits sum.splits)

lemma perform_grows:
  assumes "perform E x d = Some d'"
  shows "backend_type d' = backend_type d
   \<and> (\<exists>l'. registered d' u = registered d u @ l')
   \<and> (callbacks d u \<noteq> None \<longrightarrow> callbacks d' u \<noteq> None)"
proof (cases x)
  case (OpSubscribe u' cbo i)
  with assms have "d' = snd (subscribe E u' cbo i d)" by simp
  then show ?thesis
    by (simp add: subscribe_callbacks registered_def split: option.splits)
next
  case (OpCharWrite uw v wfr n ur T)
  with assms obtain r where "char_write E uw v wfr n ur T d = Some (r, d')"
    by auto
  from char_write_keeps [OF this] show ?thesis by (simp add: registered_def)
next
  case (OpCharRead u')
  with assms have "d' = snd (char_read E u' d)" by simp
  then show ?thesis
    by (simp add: char_read_def registered_def get_handle_keeps case_prod_unfold
        split: backend_kind.splits sum.splits option.splits)
next
  case OpGetRssi
  with assms have "d' = snd (get_rssi E d)" by simp
  then show ?thesis
    using rssi_loop_keeps [of E 3 d]
    by (simp add: get_rssi_def registered_def case_prod_unfold
        split: backend_kind.splits option.splits)
next
  case OpBond
  with assms have "d' = snd (bond E d)" by simp
  then show ?thesis by (simp add: bond_def registered_def split: backend_kind.splits)
next
  case (OpConnect t)
  with assms have "d' = snd (connect E t d)" by simp
  then show ?thesis
    by (simp add: connect_def registered_def case_prod_unfold split: backend_kind.splits bool.splits)
next
  case OpEncrypt
  with assms have "d' = snd (encrypt E d)" by simp
  then show ?thesis by (simp add: encrypt_def registered_def split: backend_kind.splits)
next
  case OpRun
  with assms have "d' = snd (run E d)" by simp
  then show ?thesis by (simp add: run_def registered_def split: backend_kind.splits)
next
  case OpStop
  with assms have "d' = snd (stop E d)" by simp
  then show ?thesis by (simp add: stop_def registered_def split: backend_kind.splits)
qed

lemma perform_all_grows:
  "perform_all E ops d = Some d' \<Longrightarrow>
   (\<exists>l'. registered d' u = registered d u @ l')
   \<and> (callbacks d u \<noteq> None \<longrightarrow> callbacks d' u \<noteq> None)"
proof (induction ops arbitrary: d)
  case Nil
  then show ?case by simp
next
  case (Cons x xs)
  then obtain d1 where 1: "perform E x d = Some d1" and 2: "perform_all E xs d1 = Some d'"
    by (auto split: option.splits)
  from perform_grows [OF 1, of u] obtain l1 where
    l1: "registered d1 u = registered d u @ l1" and e1: "callbacks d u \<noteq> None \<longrightarrow> callbacks d1 u \<noteq> None"
    by blast
  from Cons.IH [OF 2] obtain l2 where
    l2: "registered d' u = registered d1 u @ l2" and e2: "callbacks d1 u \<noteq> None \<longrightarrow> callbacks d' u \<noteq> None"
    by blast
  from l1 l2 e1 e2 show ?case by simp
qed

lemma dispatch_all_ok:
  "\<forall>cb \<in> set cbs. observer E cb v = None \<Longrightarrow>
   dispatch E cbs v d = (Inr (), d\<lparr>events := events d @ map (\<lambda>cb. EvCallback cb v) cbs\<rparr>)"
  by (induction cbs arbitrary: d) (simp_all add: emit_def)

lemma dispatch_raises:
  "\<forall>c \<in> set pre. observer E c v = None \<Longrightarrow> observer E cb v = Some e \<Longrightarrow>
   dispatch E (pre @ cb # post) v d
     = (Inl e, d\<lparr>events := events d @ map (\<lambda>c. EvCallback c v) (pre @ [cb])\<rparr>)"
  by (induction pre arbitrary: d) (simp_all add: emit_def)

text \<open>
  Claim C8. The callback registry only grows. Whatever sequence of public methods is called,
  when it has returned the callbacks registered for an identifier before it are still
  registered, in the same order and at the head of the list, and an identifier that had an
  entry keeps one. A \<open>subscribe\<close> on a BLED112 device that returns with a callback appends
  exactly that callback at the end of the identifier's list, the list being created when the
  identifier had none. The dispatch of \<open>char_write\<close> goes through the list from its head, so
  callbacks that return are called in the order of their registration.
\<close>

theorem registry_only_grows:
  "(perform_all E ops d = Some d' \<longrightarrow>
      (\<exists>l'. registered d' u = registered d u @ l')
      \<and> (callbacks d u \<noteq> None \<longrightarrow> callbacks d' u \<noteq> None))
   \<and> (backend_type d = BLED112 \<and> fst (subscribe E u (Some cb) i d) = Inr () \<longrightarrow>
        callbacks (snd (subscribe E u (Some cb) i d)) = (callbacks d)(u \<mapsto> registered d u @ [cb]))
   \<and> ((\<forall>c \<in> set (registered d u). observer E c v = None) \<longrightarrow>
        events (snd (dispatch E (registered d u) v d))
          = events d @ map (\<lambda>c. EvCallback c v) (registered d u))"
  using perform_all_grows [of E ops d d' u]
    subscribe_callbacks(1) [of E u "Some cb" i d] dispatch_all_ok [of "registered d u" E v d]
  by simp


section \<open>\<open>char_write\<close> with \<open>wait_for_response\<close>\<close>

text \<open>
  Claim C2, as amended. When \<open>char_write\<close> has reassembled a value, the callbacks registered
  for the response identifier are called in the order of their registration, each with the
  reassembled value, until one of them raises. If none raises, all of them are called and the
  call returns. If one raises, its exception leaves \<open>char_write\<close> and no callback registered
  after it is called: the loop has no handler around the call.
\<close>

theorem char_write_dispatch_until_raise:
  assumes "backend_type d = BLED112" and "0 < n"
    and "get_handle E uw d = (Inr hw, d1)"
    and "get_handle E ur d1 = (Inr hr, d2)"
    and "call (EvCharWrite hw v) (b_char_write (bled E) hw v) d2 = (True, d3)"
    and "call EvGetNotifications (b_get_notifications (bled E)) d3 = (nf, d4)"
    and "wait_loop E hr n T nf 0 d4 = Some (Inr nf', d5)"
    and "assemble E hr nf' (nat n) [] d5 = (Inr value_list, d6)"
  shows "((\<forall>cb \<in> set (registered d6 ur). observer E cb value_list = None) \<longrightarrow>
            char_write E uw v True n ur T d
              = Some (Inr (), d6\<lparr>events := events d6 @ map (\<lambda>cb. EvCallback cb value_list) (registered d6 ur)\<rparr>))
       \<and> (registered d6 ur = pre @ cb # post \<and> (\<forall>c \<in> set pre. observer E c value_list = None)
            \<and> observer E cb value_list = Some e \<longrightarrow>
            char_write E uw v True n ur T d
              = Some (Inl e, d6\<lparr>events := events d6 @ map (\<lambda>c. EvCallback c value_list) (pre @ [cb])\<rparr>))"
proof -
  have "char_write E uw v True n ur T d = Some (dispatch E (registered d6 ur) value_list d6)"
    using char_write_wait_path [OF assms(1-6), of T] assms(7,8) by simp
  then show ?thesis
    using dispatch_all_ok [of "registered d6 ur" E value_list d6]
      dispatch_raises [of pre E value_list cb e post d6]
    by auto
qed

lemma invoked_append [simp]: "invoked (xs @ ys) = invoked xs @ invoked ys"
  by (induction xs rule: invoked.induct) simp_all

lemma invoked_callbacks [simp]: "invoked (map (\<lambda>cb. EvCallback cb v) cbs) = map (\<lambda>cb. (cb, v)) cbs"
  by (induction cbs) simp_all

lemma invoked_replicate_remove [simp]: "invoked (replicate k (EvRemoveNotification h i)) = []"
  by (induction k) simp_all

lemma invoked_polls [simp]: "invoked (concat (replicate k [EvSleep t, EvGetNotifications])) = []"
  by (induction k) simp_all

lemma get_handle_invoked:
  "invoked (events (snd (get_handle E u d))) = invoked (events d)"
  by (simp add: get_handle_def case_prod_unfold split: sum.splits backend_kind.splits)

lemma chain_keeps:
  assumes "get_handle E uw d = (r1, d1)"
    and "get_handle E ur d1 = (r2, d2)"
    and "call ev1 f1 d2 = (r3, d3)"
    and "call ev2 f2 d3 = (r4, d4)"
  shows "callbacks d4 = callbacks d" and "backend_type d4 = backend_type d"
    and "invoked (events d4) = invoked (events d) @ invoked [ev1, ev2]"
proof -
  have 1: "d1 = snd (get_handle E uw d)" "d2 = snd (get_handle E ur d1)"
    "d3 = snd (call ev1 f1 d2)" "d4 = snd (call ev2 f2 d3)"
    using assms by simp_all
  show "callbacks d4 = callbacks d" "backend_type d4 = backend_type d"
    unfolding 1 by (simp_all add: get_handle_keeps)
  show "invoked (events d4) = invoked (events d) @ invoked [ev1, ev2]"
    unfolding 1 by (simp add: get_handle_invoked)
qed

lemma wait_loop_ready:
  "nf (backend d) h = Some q \<Longrightarrow> n \<le> int (length q) \<Longrightarrow>
   wait_loop E h n T nf w d = Some (Inr nf, d)"
  by (subst wait_loop.simps) simp

text \<open>
  When the wait loop leaves to the reassembly, after any number of rounds, the list of the
  handle is long enough at that moment.
\<close>

lemma wait_loop_exit:
  assumes "wait_loop E h n T nf w d = Some (Inr nf', d')"
  shows "\<exists>k q. d' = snd (poll E k (nf, d)) \<and> nf' = fst (poll E k (nf, d))
           \<and> nf' (backend d') h = Some q \<and> n \<le> int (length q)"
proof -
  from wait_loop_returns [OF assms] obtain k where
    k: "snd (Inr nf' :: pyerror + ('a \<Rightarrow> inbox), d') = snd (poll E k (nf, d))
     \<and> (case fst (poll E k (nf, d)) (backend (snd (poll E k (nf, d)))) h of
          None \<Rightarrow> fst (Inr nf' :: pyerror + ('a \<Rightarrow> inbox), d') = Inl KeyError
        | Some q \<Rightarrow>
            if int (length q) < n
            then fst (Inr nf' :: pyerror + ('a \<Rightarrow> inbox), d') = Inl (NoResponseError ((float_add_quarter ^^ k) w))
                 \<and> T \<le> (float_add_quarter ^^ k) w
            else fst (Inr nf' :: pyerror + ('a \<Rightarrow> inbox), d') = Inr (fst (poll E k (nf, d))))"
    by blast
  then have d': "d' = snd (poll E k (nf, d))" by simp
  from k obtain q where "fst (poll E k (nf, d)) (backend (snd (poll E k (nf, d)))) h = Some q"
    and "n \<le> int (length q)" and "nf' = fst (poll E k (nf, d))"
    by (auto split: option.splits if_splits)
  with d' show ?thesis by blast
qed

lemma live_poll:
  "\<forall>s. fst (b_get_notifications (bled E) s) = inb \<Longrightarrow> fst p = inb \<Longrightarrow> fst (poll E k p) = inb"
  by (induction k arbitrary: p) simp_all

lemma funpow_pop:
  assumes rm: "\<forall>s x xs. inb s h = Some (x # xs) \<longrightarrow> inb (f s) = (inb s)(h \<mapsto> xs)"
  shows "inb s h = Some q \<Longrightarrow> k \<le> length q \<Longrightarrow> inb ((f ^^ k) s) = (inb s)(h \<mapsto> drop k q)"
proof (induction k arbitrary: s q)
  case 0
  then show ?case by (simp add: fun_upd_idem)
next
  case (Suc k)
  then obtain x xs where q: "q = x # xs" by (cases q) auto
  with Suc.prems rm have 1: "inb (f s) = (inb s)(h \<mapsto> xs)" by blast
  then have 2: "inb (f s) h = Some xs" by simp
  from Suc.prems q have 3: "k \<le> length xs" by simp
  from Suc.IH [OF 2 3] 1 q show ?case by (auto simp add: funpow_swap1 fun_eq_iff)
qed

lemma assemble_live:
  assumes rm: "\<forall>s x xs. inb s h = Some (x # xs) \<longrightarrow>
                 inb (b_remove_notification (bled E) h 0 s) = (inb s)(h \<mapsto> xs)"
  shows "inb (backend d) h = Some q \<Longrightarrow> k \<le> length q \<Longrightarrow>
     assemble E h inb k acc d =
       (Inr (acc @ concat (take k q)),
        d\<lparr>backend := ((b_remove_notification (bled E) h 0) ^^ k) (backend d),
          events := events d @ replicate k (EvRemoveNotification h 0)\<rparr>)"
proof (induction k arbitrary: acc d q)
  case 0
  then show ?case by simp
next
  case (Suc k)
  then obtain x xs where q: "q = x # xs" by (cases q) auto
  let ?d' = "call0 (EvRemoveNotification h 0) (b_remove_notification (bled E) h 0) d"
  from Suc.prems q rm have "inb (backend ?d') h = Some xs" by simp
  moreover from Suc.prems q have "k \<le> length xs" by simp
  ultimately have "assemble E h inb k (acc @ x) ?d' =
       (Inr ((acc @ x) @ concat (take k xs)),
        ?d'\<lparr>backend := ((b_remove_notification (bled E) h 0) ^^ k) (backend ?d'),
          events := events ?d' @ replicate k (EvRemoveNotification h 0)\<rparr>)"
    by (rule Suc.IH)
  with Suc.prems q show ?case
    by (simp add: funpow_swap1 call0_def emit_def replicate_append_same)
qed

lemma dispatch_events:
  "\<exists>m \<le> length cbs. events (snd (dispatch E cbs v d)) = events d @ map (\<lambda>cb. EvCallback cb v) (take m cbs)"
proof (induction cbs arbitrary: d)
  case Nil
  then show ?case by simp
next
  case (Cons cb cbs)
  show ?case
  proof (cases "observer E cb v")
    case (Some e)
    then show ?thesis by (intro exI [of _ 1]) simp
  next
    case None
    from Cons [of "emit (EvCallback cb v) d"] obtain m where
      "m \<le> length cbs"
      "events (snd (dispatch E cbs v (emit (EvCallback cb v) d)))
         = events (emit (EvCallback cb v) d) @ map (\<lambda>cb. EvCallback cb v) (take m cbs)"
      by blast
    with None show ?thesis by (intro exI [of _ "Suc m"]) simp
  qed
qed

text \<open>
  Claim C4, as amended. Let the backend hand out its own mapping and let
  \<open>remove_notification(handle, 0)\<close> take the first value off the handle's list. Whenever the
  wait loop leaves to the reassembly, at its first test or after any number of sleeps, the
  list \<open>q\<close> of the response handle holds at least \<open>num_packets\<close> values at that moment, and
  \<open>char_write\<close> ends, returning or raising what a callback raised. Whatever the callbacks do,
  it has then removed exactly the first \<open>num_packets\<close> values of that list (the later values
  and the other handles' lists are untouched), by \<open>num_packets\<close> calls of
  \<open>remove_notification(handle, 0)\<close>, before any callback was called, and every call of a
  callback was made with the concatenation of the removed values in their order of arrival.
  When no registered callback raises, \<open>char_write\<close> returns and has called the callbacks
  exactly once per registration, in the order of the registry, with that value.
\<close>

theorem char_write_reassembles_live:
  assumes "backend_type d = BLED112" and "0 < n"
    and "live_inbox (bled E) inb"
    and "get_handle E uw d = (Inr hw, d1)"
    and "get_handle E ur d1 = (Inr hr, d2)"
    and "call (EvCharWrite hw v) (b_char_write (bled E) hw v) d2 = (True, d3)"
    and "call EvGetNotifications (b_get_notifications (bled E)) d3 = (nf, d4)"
    and "wait_loop E hr n T nf 0 d4 = Some (Inr nf', d5)"
  shows "\<exists>q. inb (backend d5) hr = Some q \<and> n \<le> int (length q)
    \<and> (\<exists>r d'. char_write E uw v True n ur T d = Some (r, d')
          \<and> backend d' = ((b_remove_notification (bled E) hr 0) ^^ nat n) (backend d5)
          \<and> inb (backend d') = (inb (backend d5))(hr \<mapsto> drop (nat n) q)
          \<and> (\<exists>m \<le> length (registered d ur).
                events d' = events d5 @ replicate (nat n) (EvRemoveNotification hr 0)
                  @ map (\<lambda>cb. EvCallback cb (concat (take (nat n) q))) (take m (registered d ur))))
    \<and> ((\<forall>cb \<in> set (registered d ur). observer E cb (concat (take (nat n) q)) = None) \<longrightarrow>
          (\<exists>d'. char_write E uw v True n ur T d = Some (Inr (), d')
             \<and> d' = d5\<lparr>backend := ((b_remove_notification (bled E) hr 0) ^^ nat n) (backend d5),
                       events := events d5 @ replicate (nat n) (EvRemoveNotification hr 0)
                         @ map (\<lambda>cb. EvCallback cb (concat (take (nat n) q))) (registered d ur)\<rparr>
             \<and> invoked (events d')
                 = invoked (events d) @ map (\<lambda>cb. (cb, concat (take (nat n) q))) (registered d ur)))"
proof -
  let ?rm = "b_remove_notification (bled E) hr 0"
  from assms(3) have nf_live: "\<forall>s. fst (b_get_notifications (bled E) s) = inb"
    and rm: "\<forall>s x xs. inb s hr = Some (x # xs) \<longrightarrow> inb (?rm s) = (inb s)(hr \<mapsto> xs)"
    by (simp_all add: live_inbox_def)
  from assms(7) nf_live have nf: "nf = inb"
    by (metis call_simps(5) fst_conv)
  from wait_loop_exit [OF assms(8)] obtain k q where
    d5: "d5 = snd (poll E k (nf, d4))" and nf': "nf' = fst (poll E k (nf, d4))"
    and q: "nf' (backend d5) hr = Some q" and len: "n \<le> int (length q)"
    by blast
  from nf' nf live_poll [OF nf_live, of "(nf, d4)" k] have nf'_live: "nf' = inb" by simp
  from q nf'_live have q': "inb (backend d5) hr = Some q" by simp
  have kq: "nat n \<le> length q" using len by simp
  let ?v = "concat (take (nat n) q)"
  let ?d6 = "d5\<lparr>backend := (?rm ^^ nat n) (backend d5),
                events := events d5 @ replicate (nat n) (EvRemoveNotification hr 0)\<rparr>"
  have cb4: "callbacks d4 = callbacks d" and iv4: "invoked (events d4) = invoked (events d)"
    using chain_keeps [OF assms(4,5,6,7)] by simp_all
  have cb5: "callbacks d5 = callbacks d" and iv5: "invoked (events d5) = invoked (events d)"
    using poll_keeps [of E k "(nf, d4)"] cb4 iv4 unfolding d5 by simp_all
  have a: "assemble E hr nf' (nat n) [] d5 = (Inr ?v, ?d6)"
    using assemble_live [OF rm q' kq, of "[]"] nf'_live by simp
  have r: "registered ?d6 ur = registered d ur"
    using cb5 by (simp add: registered_def)
  have res: "char_write E uw v True n ur T d = Some (dispatch E (registered d ur) ?v ?d6)"
    using char_write_wait_path [OF assms(1,2,4,5,6,7), of T] assms(8) a r by simp
  have inbox: "inb ((?rm ^^ nat n) (backend d5)) = (inb (backend d5))(hr \<mapsto> drop (nat n) q)"
    using funpow_pop [OF rm q' kq] .
  obtain r' d' where disp: "dispatch E (registered d ur) ?v ?d6 = (r', d')"
    by (cases "dispatch E (registered d ur) ?v ?d6")
  have bk: "backend d' = (?rm ^^ nat n) (backend d5)"
    using dispatch_keeps [of E "registered d ur" ?v ?d6] disp by simp
  from dispatch_events [of "registered d ur" E ?v ?d6] disp obtain m where
    m: "m \<le> length (registered d ur)"
    and ev: "events d' = events d5 @ replicate (nat n) (EvRemoveNotification hr 0)
               @ map (\<lambda>cb. EvCallback cb ?v) (take m (registered d ur))"
    by auto
  have drain: "\<exists>r d'. char_write E uw v True n ur T d = Some (r, d')
          \<and> backend d' = (?rm ^^ nat n) (backend d5)
          \<and> inb (backend d') = (inb (backend d5))(hr \<mapsto> drop (nat n) q)
          \<and> (\<exists>m \<le> length (registered d ur).
                events d' = events d5 @ replicate (nat n) (EvRemoveNotification hr 0)
                  @ map (\<lambda>cb. EvCallback cb ?v) (take m (registered d ur)))"
    using res disp bk inbox m ev by auto
  have deliver: "(\<forall>cb \<in> set (registered d ur). observer E cb ?v = None) \<longrightarrow>
          (\<exists>d'. char_write E uw v True n ur T d = Some (Inr (), d')
             \<and> d' = d5\<lparr>backend := (?rm ^^ nat n) (backend d5),
                       events := events d5 @ replicate (nat n) (EvRemoveNotification hr 0)
                         @ map (\<lambda>cb. EvCallback cb ?v) (registered d ur)\<rparr>
             \<and> invoked (events d') = invoked (events d) @ map (\<lambda>cb. (cb, ?v)) (registered d ur))"
  proof
    assume ok: "\<forall>cb \<in> set (registered d ur). observer E cb ?v = None"
    have "char_write E uw v True n ur T d =
            Some (Inr (),
              d5\<lparr>backend := (?rm ^^ nat n) (backend d5),
                 events := events d5 @ replicate (nat n) (EvRemoveNotification hr 0)
                   @ map (\<lambda>cb. EvCallback cb ?v) (registered d ur)\<rparr>)"
      unfolding res using dispatch_all_ok [OF ok, of ?d6] by simp
    then show "\<exists>d'. char_write E uw v True n ur T d = Some (Inr (), d')
             \<and> d' = d5\<lparr>backend := (?rm ^^ nat n) (backend d5),
                       events := events d5 @ replicate (nat n) (EvRemoveNotification hr 0)
                         @ map (\<lambda>cb. EvCallback cb ?v) (registered d ur)\<rparr>
             \<and> invoked (events d') = invoked (events d) @ map (\<lambda>cb. (cb, ?v)) (registered d ur)"
      using iv5 by simp
  qed
  from q' len drain deliver show ?thesis by blast
qed

lemma never_enough_now:
  "never_enough E h n nf d \<Longrightarrow> \<exists>q. nf (backend d) h = Some q \<and> int (length q) < n"
  unfolding never_enough_def
  by (drule spec [of _ 0]) (simp split: option.splits)

lemma never_enough_step:
  assumes "never_enough E h n nf d"
  shows "never_enough E h n
     (fst (call EvGetNotifications (b_get_notifications (bled E)) (sleep E (1 / 4) d)))
     (snd (call EvGetNotifications (b_get_notifications (bled E)) (sleep E (1 / 4) d)))"
  unfolding never_enough_def
proof
  fix k
  from assms have "case fst (poll E (Suc k) (nf, d)) (backend (snd (poll E (Suc k) (nf, d)))) h of
            None \<Rightarrow> False | Some q \<Rightarrow> int (length q) < n"
    unfolding never_enough_def by blast
  then show "case fst (poll E k (fst (call EvGetNotifications (b_get_notifications (bled E)) (sleep E (1 / 4) d)),
                 snd (call EvGetNotifications (b_get_notifications (bled E)) (sleep E (1 / 4) d))))
               (backend (snd (poll E k (fst (call EvGetNotifications (b_get_notifications (bled E)) (sleep E (1 / 4) d)),
                 snd (call EvGetNotifications (b_get_notifications (bled E)) (sleep E (1 / 4) d)))))) h of
            None \<Rightarrow> False | Some q \<Rightarrow> int (length q) < n"
    by (simp only: poll_Suc)
qed

text \<open>
  Up to a timeout of $2^{51}$ seconds the counter is exact wherever the loop still adds to it,
  and the loop ends within \<open>\<lceil>4 (T - w)\<rceil>\<close> rounds.
\<close>

lemma wait_loop_bounded:
  "T \<le> 2 ^ 51 \<Longrightarrow> m = nat \<lceil>4 * (T - w)\<rceil> \<Longrightarrow>
   \<exists>k \<le> m.
     wait_loop E h n T nf w d =
       Some (case fst (poll E k (nf, d)) (backend (snd (poll E k (nf, d)))) h of
               None \<Rightarrow> Inl KeyError
             | Some q \<Rightarrow>
                 if int (length q) < n then Inl (NoResponseError (w + of_nat k / 4))
                 else Inr (fst (poll E k (nf, d))),
             snd (poll E k (nf, d)))
     \<and> (\<forall>q. fst (poll E k (nf, d)) (backend (snd (poll E k (nf, d)))) h = Some q
             \<and> int (length q) < n \<longrightarrow> k = m)"
proof (induction m arbitrary: nf d w)
  case 0
  then have "\<lceil>4 * (T - w)\<rceil> \<le> 0" by simp
  then have "4 * (T - w) \<le> 0" by (simp add: ceiling_le_zero)
  then have le: "T \<le> w" by simp
  show ?case
    by (rule exI [of _ 0]) (subst wait_loop.simps, simp add: le split: option.splits)
next
  case (Suc m)
  then have c: "\<lceil>4 * (T - w)\<rceil> = int m + 1" by linarith
  then have "0 < \<lceil>4 * (T - w)\<rceil>" by simp
  then have "0 < 4 * (T - w)" by (simp add: zero_less_ceiling)
  then have lt: "\<not> T \<le> w" by simp
  with Suc.prems(1) have "w < 2 ^ 51" by simp
  then have fa: "float_add_quarter w = w + 1 / 4" by (simp add: float_add_quarter_def)
  have eq: "4 * (T - (w + 1 / 4)) = 4 * (T - w) - 1" by (simp add: algebra_simps)
  have "\<lceil>4 * (T - (w + 1 / 4))\<rceil> = \<lceil>4 * (T - w)\<rceil> - 1" unfolding eq by simp
  with c have m: "m = nat \<lceil>4 * (T - (w + 1 / 4))\<rceil>" by simp
  let ?p = "call EvGetNotifications (b_get_notifications (bled E)) (sleep E (1 / 4) d)"
  show ?case
  proof (cases "\<exists>q. nf (backend d) h = Some q \<and> int (length q) < n")
    case False
    show ?thesis
      using False by (intro exI [of _ 0], subst wait_loop.simps) (auto split: option.splits)
  next
    case True
    then obtain q where q: "nf (backend d) h = Some q" "int (length q) < n" by blast
    have unf: "wait_loop E h n T nf w d = wait_loop E h n T (fst ?p) (w + 1 / 4) (snd ?p)"
      using q lt fa by (subst wait_loop.simps) simp
    from Suc.IH [OF Suc.prems(1) m, of "fst ?p" "snd ?p"] obtain k where
      k: "k \<le> m"
      and r: "wait_loop E h n T (fst ?p) (w + 1 / 4) (snd ?p) =
         Some (case fst (poll E k (fst ?p, snd ?p)) (backend (snd (poll E k (fst ?p, snd ?p)))) h of
                 None \<Rightarrow> Inl KeyError
               | Some q \<Rightarrow>
                   if int (length q) < n then Inl (NoResponseError (w + 1 / 4 + of_nat k / 4))
                   else Inr (fst (poll E k (fst ?p, snd ?p))),
               snd (poll E k (fst ?p, snd ?p)))"
      and last: "\<forall>q. fst (poll E k (fst ?p, snd ?p)) (backend (snd (poll E k (fst ?p, snd ?p)))) h = Some q
             \<and> int (length q) < n \<longrightarrow> k = m"
      by blast
    have ar: "w + 1 / 4 + of_nat k / 4 = w + of_nat (Suc k) / 4"
      by (simp add: algebra_simps)
    have 1: "wait_loop E h n T nf w d =
       Some (case fst (poll E (Suc k) (nf, d)) (backend (snd (poll E (Suc k) (nf, d)))) h of
               None \<Rightarrow> Inl KeyError
             | Some q \<Rightarrow>
                 if int (length q) < n then Inl (NoResponseError (w + of_nat (Suc k) / 4))
                 else Inr (fst (poll E (Suc k) (nf, d))),
             snd (poll E (Suc k) (nf, d)))"
      by (simp only: unf r poll_Suc ar)
    have 2: "\<forall>q. fst (poll E (Suc k) (nf, d)) (backend (snd (poll E (Suc k) (nf, d)))) h = Some q
             \<and> int (length q) < n \<longrightarrow> Suc k = Suc m"
      using last by (simp only: poll_Suc) simp
    from k 1 2 show ?thesis by (intro exI [of _ "Suc k"]) blast
  qed
qed


lemma wait_loop_never_enough:
  assumes "never_enough E h n nf d" and "T \<le> 2 ^ 51"
  shows "wait_loop E h n T nf w d
    = Some (Inl (NoResponseError (w + of_nat (nat \<lceil>4 * (T - w)\<rceil>) / 4)),
            snd (poll E (nat \<lceil>4 * (T - w)\<rceil>) (nf, d)))"
proof -
  from wait_loop_bounded [OF assms(2) refl, of w E h n nf d] obtain k where
    r: "wait_loop E h n T nf w d =
       Some (case fst (poll E k (nf, d)) (backend (snd (poll E k (nf, d)))) h of
               None \<Rightarrow> Inl KeyError
             | Some q \<Rightarrow>
                 if int (length q) < n then Inl (NoResponseError (w + of_nat k / 4))
                 else Inr (fst (poll E k (nf, d))),
             snd (poll E k (nf, d)))"
    and last: "\<forall>q. fst (poll E k (nf, d)) (backend (snd (poll E k (nf, d)))) h = Some q
             \<and> int (length q) < n \<longrightarrow> k = nat \<lceil>4 * (T - w)\<rceil>"
    by blast
  from assms(1) obtain q where q: "fst (poll E k (nf, d)) (backend (snd (poll E k (nf, d)))) h = Some q"
      "int (length q) < n"
    unfolding never_enough_def by (metis (mono_tags, lifting) option.case_eq_if option.collapse)
  with last have "k = nat \<lceil>4 * (T - w)\<rceil>" by blast
  with r q show ?thesis by simp
qed

lemma quantum_bounds:
  fixes T :: rat
  assumes "0 \<le> T"
  shows "T \<le> of_nat (nat \<lceil>4 * T\<rceil>) / 4" and "of_nat (nat \<lceil>4 * T\<rceil>) / 4 < T + 1 / 4"
proof -
  have nn: "0 \<le> \<lceil>4 * T\<rceil>" using assms by (simp add: zero_le_ceiling)
  then have e: "(of_nat (nat \<lceil>4 * T\<rceil>) :: rat) = of_int \<lceil>4 * T\<rceil>" by simp
  have "4 * T \<le> of_int \<lceil>4 * T\<rceil>" by (rule le_of_int_ceiling)
  then show "T \<le> of_nat (nat \<lceil>4 * T\<rceil>) / 4" unfolding e by linarith
  have "of_int \<lceil>4 * T\<rceil> < 4 * T + 1" using ceiling_correct [of "4 * T"] by linarith
  then show "of_nat (nat \<lceil>4 * T\<rceil>) / 4 < T + 1 / 4" unfolding e by linarith
qed

text \<open>
  Claim C5, as amended. When the write succeeds, the mapping has at every test of the wait
  loop a list for the response handle that is shorter than \<open>num_packets\<close>, and
  \<open>bled112_timeout\<close> is at least 0 and at most $2^{51}$ seconds, \<open>char_write\<close> raises
  \<open>NoResponseError\<close> carrying the time slept; that time is the number of rounds times 0.25 s,
  it is at least the timeout and less than the timeout plus 0.25 s. After the first
  \<open>get_notifications\<close> the facade only sleeps and polls: no callback is called and nothing is
  removed from the inbox. In each test of the loop the length is checked before the time: a
  list that is long enough ends the loop normally even when the time is over.
\<close>

theorem char_write_times_out:
  assumes "backend_type d = BLED112" and "0 < n"
    and "get_handle E uw d = (Inr hw, d1)"
    and "get_handle E ur d1 = (Inr hr, d2)"
    and "call (EvCharWrite hw v) (b_char_write (bled E) hw v) d2 = (True, d3)"
    and "call EvGetNotifications (b_get_notifications (bled E)) d3 = (nf, d4)"
    and "never_enough E hr n nf d4" and "0 \<le> T" and "T \<le> 2 ^ 51"
  shows "char_write E uw v True n ur T d
        = Some (Inl (NoResponseError (of_nat (nat \<lceil>4 * T\<rceil>) / 4)),
                snd (poll E (nat \<lceil>4 * T\<rceil>) (nf, d4)))
    \<and> T \<le> of_nat (nat \<lceil>4 * T\<rceil>) / 4 \<and> of_nat (nat \<lceil>4 * T\<rceil>) / 4 < T + 1 / 4
    \<and> events (snd (poll E (nat \<lceil>4 * T\<rceil>) (nf, d4)))
        = events d4 @ concat (replicate (nat \<lceil>4 * T\<rceil>) [EvSleep (1 / 4), EvGetNotifications])
    \<and> invoked (events (snd (poll E (nat \<lceil>4 * T\<rceil>) (nf, d4)))) = invoked (events d)
    \<and> (nf' (backend d') h' = Some q' \<and> n' \<le> int (length q') \<longrightarrow>
          wait_loop E h' n' T' nf' w' d' = Some (Inr nf', d'))"
proof -
  let ?k = "nat \<lceil>4 * T\<rceil>"
  have w: "wait_loop E hr n T nf 0 d4
      = Some (Inl (NoResponseError (of_nat ?k / 4)), snd (poll E ?k (nf, d4)))"
    using wait_loop_never_enough [OF assms(7,9), of 0] by simp
  have res: "char_write E uw v True n ur T d
        = Some (Inl (NoResponseError (of_nat ?k / 4)), snd (poll E ?k (nf, d4)))"
    using char_write_wait_path [OF assms(1-6), of T] w by simp
  have ev: "events (snd (poll E ?k (nf, d4)))
        = events d4 @ concat (replicate ?k [EvSleep (1 / 4), EvGetNotifications])"
    using poll_keeps [of E ?k "(nf, d4)"] by simp
  have iv: "invoked (events d4) = invoked (events d)"
    using chain_keeps(3) [OF assms(3,4,5,6)] by simp
  have "invoked (events (snd (poll E ?k (nf, d4)))) = invoked (events d)"
    using ev iv by simp
  then show ?thesis
    using res ev quantum_bounds [OF assms(8)] wait_loop_ready [of nf' d' h' q' n' E T' w']
    by blast
qed

text \<open>
  Claim C10, as amended. For a timeout of at most $2^{51}$ seconds and a backend whose mapping
  has a list for the response handle at every test, the wait loop of \<open>char_write\<close> ends: the
  counter grows by 0.25 in each round, the loop sleeps at most \<open>\<lceil>bled112_timeout / 0.25\<rceil>\<close>
  times (not at all for a timeout that is not positive), hence tests the inbox at most that
  many times plus one, and then it leaves to the reassembly or raises \<open>NoResponseError\<close> with
  the time slept. With a timeout that is not positive and a list that is too short, it raises
  \<open>NoResponseError\<close> at the first test.
\<close>

theorem wait_loop_terminates:
  "(T \<le> 2 ^ 51
      \<and> (\<forall>k \<le> nat \<lceil>4 * T\<rceil>. fst (poll E k (nf, d)) (backend (snd (poll E k (nf, d)))) h \<noteq> None) \<longrightarrow>
      (\<exists>k \<le> nat \<lceil>4 * T\<rceil>. \<exists>q.
          fst (poll E k (nf, d)) (backend (snd (poll E k (nf, d)))) h = Some q
          \<and> wait_loop E h n T nf 0 d =
              Some (if int (length q) < n then Inl (NoResponseError (of_nat k / 4))
                    else Inr (fst (poll E k (nf, d))),
                    snd (poll E k (nf, d)))
          \<and> events (snd (poll E k (nf, d)))
              = events d @ concat (replicate k [EvSleep (1 / 4), EvGetNotifications])))
   \<and> (T \<le> 0 \<and> nf (backend d) h = Some q' \<and> int (length q') < n \<longrightarrow>
        wait_loop E h n T nf 0 d = Some (Inl (NoResponseError 0), d))"
proof (intro conjI impI)
  assume a: "T \<le> 2 ^ 51
      \<and> (\<forall>k \<le> nat \<lceil>4 * T\<rceil>. fst (poll E k (nf, d)) (backend (snd (poll E k (nf, d)))) h \<noteq> None)"
  from a have T: "T \<le> 2 ^ 51" by simp
  have m: "nat \<lceil>4 * T\<rceil> = nat \<lceil>4 * (T - 0)\<rceil>" by simp
  from wait_loop_bounded [OF T m, of E h n nf d] obtain k where k: "k \<le> nat \<lceil>4 * T\<rceil>"
    and r0: "wait_loop E h n T nf 0 d =
       Some (case fst (poll E k (nf, d)) (backend (snd (poll E k (nf, d)))) h of
               None \<Rightarrow> Inl KeyError
             | Some q \<Rightarrow>
                 if int (length q) < n then Inl (NoResponseError (0 + of_nat k / 4))
                 else Inr (fst (poll E k (nf, d))),
             snd (poll E k (nf, d)))"
    by blast
  have r: "wait_loop E h n T nf 0 d =
       Some (case fst (poll E k (nf, d)) (backend (snd (poll E k (nf, d)))) h of
               None \<Rightarrow> Inl KeyError
             | Some q \<Rightarrow>
                 if int (length q) < n then Inl (NoResponseError (of_nat k / 4))
                 else Inr (fst (poll E k (nf, d))),
             snd (poll E k (nf, d)))"
    using r0 by (simp only: add_0)
  from a k obtain q where q: "fst (poll E k (nf, d)) (backend (snd (poll E k (nf, d)))) h = Some q"
    by auto
  have ev: "events (snd (poll E k (nf, d)))
              = events d @ concat (replicate k [EvSleep (1 / 4), EvGetNotifications])"
    using poll_keeps [of E k "(nf, d)"] by simp
  from r q have "wait_loop E h n T nf 0 d =
              Some (if int (length q) < n then Inl (NoResponseError (of_nat k / 4))
                    else Inr (fst (poll E k (nf, d))),
                    snd (poll E k (nf, d)))"
    by simp
  with k q ev show "\<exists>k \<le> nat \<lceil>4 * T\<rceil>. \<exists>q.
          fst (poll E k (nf, d)) (backend (snd (poll E k (nf, d)))) h = Some q
          \<and> wait_loop E h n T nf 0 d =
              Some (if int (length q) < n then Inl (NoResponseError (of_nat k / 4))
                    else Inr (fst (poll E k (nf, d))),
                    snd (poll E k (nf, d)))
          \<and> events (snd (poll E k (nf, d)))
              = events d @ concat (replicate k [EvSleep (1 / 4), EvGetNotifications])"
    by blast
next
  assume "T \<le> 0 \<and> nf (backend d) h = Some q' \<and> int (length q') < n"
  then show "wait_loop E h n T nf 0 d = Some (Inl (NoResponseError 0), d)"
    by (subst wait_loop.simps) simp
qed

text \<open>
  Above $2^{51}$ seconds the counter never reaches the timeout: while the list stays short,
  the loop runs forever.
\<close>

lemma float_add_quarter_stays:
  assumes "w = of_nat j / 4" and "w \<le> 2 ^ 51"
  shows "\<exists>j'. float_add_quarter w = of_nat j' / 4" and "float_add_quarter w \<le> 2 ^ 51"
proof -
  show "\<exists>j'. float_add_quarter w = of_nat j' / 4"
  proof (cases "w < 2 ^ 51")
    case True
    then have "float_add_quarter w = of_nat (Suc j) / 4"
      using assms(1) by (simp add: float_add_quarter_def)
    then show ?thesis by blast
  next
    case False
    then show ?thesis using assms(1) by (auto simp add: float_add_quarter_def)
  qed
  show "float_add_quarter w \<le> 2 ^ 51"
  proof (cases "w < 2 ^ 51")
    case True
    with assms(1) have "(of_nat j :: rat) < 4 * 2 ^ 51" by simp
    then have "(of_nat j :: rat) < of_nat (4 * 2 ^ 51)" by simp
    then have "j < 4 * 2 ^ 51" by (simp only: of_nat_less_iff)
    then have "Suc j \<le> 4 * 2 ^ 51" by simp
    then have "(of_nat (Suc j) :: rat) \<le> of_nat (4 * 2 ^ 51)" by (simp only: of_nat_le_iff)
    then have "(of_nat (Suc j) :: rat) / 4 \<le> 2 ^ 51" by simp
    with True assms(1) show ?thesis by (simp add: float_add_quarter_def)
  next
    case False
    with assms(2) show ?thesis by (simp add: float_add_quarter_def)
  qed
qed

lemma wait_loop_diverges:
  assumes ne: "never_enough E h n nf d" and big: "2 ^ 51 < T"
    and quarter: "w = of_nat j / 4" and small: "w \<le> 2 ^ 51"
  shows "wait_loop E h n T nf w d = None"
proof (rule ccontr)
  assume "wait_loop E h n T nf w d \<noteq> None"
  then obtain y where y: "wait_loop E h n T nf w d = Some y" by blast
  have "never_enough E h n nf d \<and> 2 ^ 51 < T \<and> (\<exists>j. w = of_nat j / 4) \<and> w \<le> 2 ^ 51 \<longrightarrow> False"
  proof (rule wait_loop.raw_induct [where P = "\<lambda>E h n T nf w d y.
      never_enough E h n nf d \<and> 2 ^ 51 < T \<and> (\<exists>j. w = of_nat j / 4) \<and> w \<le> 2 ^ 51 \<longrightarrow> False",
      OF _ y], goal_cases)
    case (1 wl E h n T nf w d y)
    show ?case
    proof
      assume a: "never_enough E h n nf d \<and> 2 ^ 51 < T \<and> (\<exists>j. w = of_nat j / 4) \<and> w \<le> 2 ^ 51"
      then obtain j where j: "w = of_nat j / 4" by blast
      from a never_enough_now obtain q where q: "nf (backend d) h = Some q" "int (length q) < n"
        by blast
      from a have lt: "\<not> T \<le> w" by simp
      let ?p = "call EvGetNotifications (b_get_notifications (bled E)) (sleep E (1 / 4) d)"
      from 1(2) q lt have rec: "wl E h n T (fst ?p) (float_add_quarter w) (snd ?p) = Some y"
        by simp
      from a have ne': "never_enough E h n (fst ?p) (snd ?p)"
        using never_enough_step by blast
      from float_add_quarter_stays [OF j] a
      have "(\<exists>j'. float_add_quarter w = of_nat j' / 4) \<and> float_add_quarter w \<le> 2 ^ 51"
        by blast
      with 1(1) [OF rec] ne' a show False by blast
    qed
  qed
  with assms show False by blast
qed


section \<open>Runs on the test double\<close>

lemma assemble_numeral:
  "assemble E h nf (numeral k) acc d = assemble E h nf (Suc (pred_numeral k)) acc d"
  by (simp only: numeral_eq_Suc)

lemma wait_loop_ready_now:
  "(case nf (backend d) h of None \<Rightarrow> False | Some q \<Rightarrow> n \<le> int (length q)) \<Longrightarrow>
   wait_loop E h n T nf w d = Some (Inr nf, d)"
  by (subst wait_loop.simps) (simp split: option.splits)

lemmas fake_defs = fake_env_def fake_bled_def fake_gatt_def fake_device_def fake0_def fake_dev_def
  fake_ref_def deliver_def call_def call0_def emit_def sleep_def get_handle_def

lemma fake_type: "backend_type fake_dev = BLED112"
  by (simp add: fake_dev_def fake_device_def)

lemma fake_events: "events fake_dev = []"
  by (simp add: fake_dev_def fake_device_def)

lemma fake_gh1: "get_handle (fake_env live obs) (Some ''2a19'') fake_dev = (Inr (Some 3), fake_d1)"
  by (simp add: uuid_2a19 fake_defs fake_d1_def)

lemma fake_gh2: "get_handle (fake_env live obs) (Some ''2a1c'') fake_d1 = (Inr (Some 7), fake_d2)"
  by (simp add: uuid_2a1c fake_defs fake_d1_def fake_d2_def)

lemma fake_wr:
  "call (EvCharWrite (Some 3) [9]) (b_char_write (bled (fake_env live obs)) (Some 3) [9]) fake_d2
     = (True, fake_d3)"
  by (simp add: fake_defs fake_d2_def fake_d3_def)

lemma fake_gn:
  "call EvGetNotifications (b_get_notifications (bled (fake_env True obs))) fake_d3 = (fake_ref, fake_d4)"
  by (simp add: fake_env_def fake_bled_def fake_device_def fake_dev_def call_def emit_def
      fake_d3_def fake_d4_def)

lemma fake_inbox: "fake_ref (backend fake_d4) (Some 7) = Some [[0x01, 0x02], [0x03, 0x04]]"
  by (simp add: fake_defs fake_d4_def)

lemma fake_registered:
  "registered fake_dev (Some ''2a1c'') = [0, 1]" "registered fake_d6 (Some ''2a1c'') = [0, 1]"
  "registered late_dev (Some ''2a1c'') = [0, 1]"
  by (simp_all add: registered_def fake_dev_def late_dev_def fake_device_def fake_d6_def)

lemma map_of_pop_other:
  "k \<noteq> h \<Longrightarrow> map_of (map (\<lambda>(k, q). if k = h then (k, g q) else (k, q)) al) k = map_of al k"
  by (induction al) auto

lemma map_of_pop_same:
  "map_of (map (\<lambda>(k, q). if k = h then (k, g q) else (k, q)) al) h = map_option g (map_of al h)"
  by (induction al) auto

lemma map_of_pop:
  "map_of al h = Some (x # xs) \<Longrightarrow>
   map_of (map (\<lambda>(k, q). if k = h then (k, take 0 q @ drop (Suc 0) q) else (k, q)) al)
     = (map_of al)(h \<mapsto> xs)"
  by (auto simp add: fun_eq_iff map_of_pop_other map_of_pop_same)

lemma fake_live: "live_inbox (bled (fake_env True obs)) fake_ref"
  unfolding live_inbox_def
  by (simp add: fake_env_def fake_bled_def fake_ref_def map_of_pop)

lemma fake_wait:
  "wait_loop (fake_env True obs) (Some 7) 2 T fake_ref w fake_d4 = Some (Inr fake_ref, fake_d4)"
  using wait_loop_ready [of fake_ref fake_d4 "Some 7" "[[0x01, 0x02], [0x03, 0x04]]" 2] fake_inbox
  by simp

lemma fake_asm:
  "assemble (fake_env True obs) (Some 7) fake_ref (nat 2) [] fake_d4 = (Inr [0x01, 0x02, 0x03, 0x04], fake_d6)"
  by (simp add: fake_defs fake_d4_def fake_d6_def assemble_numeral)

lemma fake_poll:
  "fst p = fake_ref \<Longrightarrow> f_pending (backend (snd p)) = [] \<Longrightarrow>
   fst (poll (fake_env True obs) k p) = fake_ref
   \<and> backend (snd (poll (fake_env True obs) k p)) = backend (snd p)"
proof (induction k arbitrary: p)
  case 0
  then show ?case by simp
next
  case (Suc k)
  let ?p = "call EvGetNotifications (b_get_notifications (bled (fake_env True obs)))
              (sleep (fake_env True obs) (1 / 4) (snd p))"
  have 1: "fst ?p = fake_ref" by (simp add: fake_env_def fake_bled_def)
  have 2: "backend (snd ?p) = backend (snd p)"
    using Suc.prems(2) by (simp add: fake_env_def fake_bled_def deliver_def)
  from 2 Suc.prems(2) have 3: "f_pending (backend (snd ?p)) = []" by simp
  from Suc.IH [OF 1 3] 2 show ?case by simp
qed

lemma fake_never: "never_enough (fake_env True obs) (Some 7) 3 fake_ref fake_d4"
proof -
  have "f_pending (backend (snd (fake_ref, fake_d4))) = []"
    by (simp add: fake_defs fake_d4_def)
  from fake_poll [of "(fake_ref, fake_d4)", OF _ this, of obs] fake_inbox show ?thesis
    unfolding never_enough_def by simp
qed

lemma funpow_numeral_2: "(f ^^ 2) x = f (f x)"
  by (simp add: numeral_2_eq_2)

lemma replicate_numeral_2: "replicate 2 x = [x, x]"
  by (simp add: numeral_2_eq_2)

lemma replicate_4_polls:
  "concat (replicate 4 [a, b]) = [a, b, a, b, a, b, a, b]"
  by (simp add: numeral_eq_Suc)

text \<open>The run in which the two notifications arrive during the first two sleeps.\<close>

lemma late_type: "backend_type late_dev = BLED112"
  by (simp add: late_dev_def fake_device_def)

lemma late_events: "events late_dev = []"
  by (simp add: late_dev_def fake_device_def)

lemma late_gh1: "get_handle (fake_env live obs) (Some ''2a19'') late_dev = (Inr (Some 3), late_d1)"
  by (simp add: uuid_2a19 fake_defs late0_def late_dev_def late_d1_def)

lemma late_gh2: "get_handle (fake_env live obs) (Some ''2a1c'') late_d1 = (Inr (Some 7), late_d2)"
  by (simp add: uuid_2a1c fake_defs late0_def late_dev_def late_d1_def late_d2_def)

lemma late_wr:
  "call (EvCharWrite (Some 3) [9]) (b_char_write (bled (fake_env live obs)) (Some 3) [9]) late_d2
     = (True, late_d3)"
  by (simp add: fake_defs late0_def late_dev_def late_d2_def late_d3_def)

lemma late_gn:
  "call EvGetNotifications (b_get_notifications (bled (fake_env True obs))) late_d3 = (fake_ref, late_d4)"
  by (simp add: fake_env_def fake_bled_def fake_device_def late_dev_def call_def emit_def
      late_d3_def late_d4_def)

lemma late_inbox:
  "fake_ref (backend late_d4) (Some 7) = Some []"
  "fake_ref (backend late_d5) (Some 7) = Some [[0x01, 0x02], [0x03, 0x04]]"
  "fake_ref (backend late_d6) (Some 7) = Some []"
  by (simp_all add: fake_defs late0_def late_dev_def late_d4_def late_d5_def late_d6_def)

lemma late_wait:
  "wait_loop (fake_env True obs) (Some 7) 2 1 fake_ref 0 late_d4 = Some (Inr fake_ref, late_d5)"
  apply (subst wait_loop.simps)
  apply (simp add: fake_defs late0_def late_dev_def late_d4_def float_add_quarter_def)
  apply (subst wait_loop.simps)
  apply (simp add: fake_defs float_add_quarter_def)
  apply (subst wait_loop.simps)
  apply (simp add: fake_defs late_dev_def late0_def late_d5_def)
  done


theorem registry_only_grows_witness:
  "(\<exists>d'. perform_all (fake_env True quiet)
         [OpSubscribe (Some ''2a1c'') (Some 5) False, OpGetRssi, OpSubscribe (Some ''2a1c'') None False,
          OpCharWrite (Some ''2a19'') [9] True 2 (Some ''2a1c'') 1] fake_dev = Some d'
        \<and> (\<exists>l'. registered d' (Some ''2a1c'') = [0, 1] @ l')
        \<and> callbacks d' (Some ''2a1c'') \<noteq> None)
   \<and> callbacks fake_dev (Some ''2a1c'') \<noteq> None
   \<and> backend_type fake_dev = BLED112
   \<and> fst (subscribe (fake_env True quiet) (Some ''2a1c'') (Some 5) False fake_dev) = Inr ()
   \<and> callbacks (snd (subscribe (fake_env True quiet) (Some ''2a1c'') (Some 5) False fake_dev))
       = (callbacks fake_dev)(Some ''2a1c'' \<mapsto> [0, 1, 5])
   \<and> events (snd (dispatch (fake_env True quiet) [0, 1] [7] fake_dev))
       = [EvCallback 0 [7], EvCallback 1 [7]]"
proof -
  let ?ops = "[OpSubscribe (Some ''2a1c'') (Some 5) False, OpGetRssi, OpSubscribe (Some ''2a1c'') None False,
          OpCharWrite (Some ''2a19'') [9] True 2 (Some ''2a1c'') 1]"
  have a: "callbacks fake_dev (Some ''2a1c'') \<noteq> None"
    by (simp add: fake_dev_def fake_device_def)
  have c: "fst (subscribe (fake_env True quiet) (Some ''2a1c'') (Some 5) False fake_dev) = Inr ()"
    using fake_type by (simp add: subscribe_def uuid_2a1c Let_def)
  have o: "\<forall>c \<in> set (registered fake_dev (Some ''2a1c'')). observer (fake_env True quiet) c [7] = None"
    by (simp add: fake_env_def quiet_def)
  have "\<exists>d'. perform_all (fake_env True quiet) ?ops fake_dev = Some d'"
    by (simp add: subscribe_def get_rssi_def char_write_def uuid_2a19 uuid_2a1c fake_defs Let_def
        numeral_3_eq_3 wait_loop_ready_now assemble_numeral quiet_def)
  then obtain d' where p: "perform_all (fake_env True quiet) ?ops fake_dev = Some d'" by blast
  note t = registry_only_grows [of "fake_env True quiet" ?ops fake_dev d' "Some ''2a1c''" 5 False "[7]"]
  from t p have 1: "(\<exists>l'. registered d' (Some ''2a1c'') = [0, 1] @ l')
      \<and> callbacks d' (Some ''2a1c'') \<noteq> None"
    using a by (simp add: fake_registered)
  from t fake_type c have 2: "callbacks (snd (subscribe (fake_env True quiet) (Some ''2a1c'') (Some 5) False fake_dev))
       = (callbacks fake_dev)(Some ''2a1c'' \<mapsto> [0, 1, 5])"
    by (simp add: fake_registered)
  from t o have 3: "events (snd (dispatch (fake_env True quiet) [0, 1] [7] fake_dev))
       = [EvCallback 0 [7], EvCallback 1 [7]]"
    by (simp add: fake_registered fake_events)
  from p 1 2 3 a c fake_type show ?thesis by blast
qed

theorem char_write_dispatch_until_raise_witness:
  "registered fake_d6 (Some ''2a1c'') = [0, 1]
   \<and> quiet 0 [0x01, 0x02, 0x03, 0x04] = None \<and> quiet 1 [0x01, 0x02, 0x03, 0x04] = None
   \<and> char_write (fake_env True quiet) (Some ''2a19'') [9] True 2 (Some ''2a1c'') 1 fake_dev
       = Some (Inr (), fake_d6\<lparr>events := events fake_d6 @
            [EvCallback 0 [0x01, 0x02, 0x03, 0x04], EvCallback 1 [0x01, 0x02, 0x03, 0x04]]\<rparr>)
   \<and> first_raises 0 [0x01, 0x02, 0x03, 0x04] = Some (PyException ''observer failed'')
   \<and> char_write (fake_env True first_raises) (Some ''2a19'') [9] True 2 (Some ''2a1c'') 1 fake_dev
       = Some (Inl (PyException ''observer failed''),
          fake_d6\<lparr>events := events fake_d6 @ [EvCallback 0 [0x01, 0x02, 0x03, 0x04]]\<rparr>)"
proof -
  have q: "\<forall>cb \<in> set (registered fake_d6 (Some ''2a1c'')).
             observer (fake_env True quiet) cb [0x01, 0x02, 0x03, 0x04] = None"
    by (simp add: fake_env_def quiet_def)
  have r: "registered fake_d6 (Some ''2a1c'') = [] @ 0 # [1]"
    "\<forall>c \<in> set []. observer (fake_env True first_raises) c [0x01, 0x02, 0x03, 0x04] = None"
    "observer (fake_env True first_raises) 0 [0x01, 0x02, 0x03, 0x04] = Some (PyException ''observer failed'')"
    by (simp_all add: fake_registered fake_env_def first_raises_def)
  have two: "(0 :: int) < 2" by simp
  have 1: "char_write (fake_env True quiet) (Some ''2a19'') [9] True 2 (Some ''2a1c'') 1 fake_dev
       = Some (Inr (), fake_d6\<lparr>events := events fake_d6 @
            [EvCallback 0 [0x01, 0x02, 0x03, 0x04], EvCallback 1 [0x01, 0x02, 0x03, 0x04]]\<rparr>)"
    using char_write_dispatch_until_raise [OF fake_type two fake_gh1 fake_gh2 fake_wr fake_gn
        fake_wait fake_asm, of quiet 1 "[]" 0 "[1]" "PyException ''observer failed''"] q
    by (simp add: fake_registered)
  have 2: "char_write (fake_env True first_raises) (Some ''2a19'') [9] True 2 (Some ''2a1c'') 1 fake_dev
       = Some (Inl (PyException ''observer failed''),
          fake_d6\<lparr>events := events fake_d6 @ [EvCallback 0 [0x01, 0x02, 0x03, 0x04]]\<rparr>)"
    using char_write_dispatch_until_raise [OF fake_type two fake_gh1 fake_gh2 fake_wr fake_gn
        fake_wait fake_asm, of first_raises 1 "[]" 0 "[1]" "PyException ''observer failed''"] r
    by simp
  show ?thesis
    using 1 2 by (simp add: fake_registered quiet_def first_raises_def)
qed

text \<open>
  Claim C2 as stated fails: with callbacks 0 and 1 registered in this order and callback 0
  raising, \<open>char_write\<close> raises that exception and callback 1 is not called.
\<close>

theorem observer_isolation_counterexample:
  "registered fake_dev (Some ''2a1c'') = [0, 1]
   \<and> (\<exists>d'. char_write (fake_env True first_raises) (Some ''2a19'') [9] True 2 (Some ''2a1c'') 1 fake_dev
             = Some (Inl (PyException ''observer failed''), d')
          \<and> invoked (events d') = [(0, [0x01, 0x02, 0x03, 0x04])]
          \<and> (1, [0x01, 0x02, 0x03, 0x04]) \<notin> set (invoked (events d')))"
  by (simp add: char_write_def uuid_2a19 uuid_2a1c fake_defs assemble_numeral first_raises_def
      registered_def wait_loop_ready_now)

theorem char_write_reassembles_live_witness:
  "live_inbox (bled (fake_env True quiet)) fake_ref
   \<and> fake_ref (backend late_d4) (Some 7) = Some []
   \<and> wait_loop (fake_env True quiet) (Some 7) 2 1 fake_ref 0 late_d4 = Some (Inr fake_ref, late_d5)
   \<and> fake_ref (backend late_d5) (Some 7) = Some [[0x01, 0x02], [0x03, 0x04]]
   \<and> char_write (fake_env True quiet) (Some ''2a19'') [9] True 2 (Some ''2a1c'') 1 late_dev
       = Some (Inr (), late_d6\<lparr>events := events late_d6 @
            [EvCallback 0 [0x01, 0x02, 0x03, 0x04], EvCallback 1 [0x01, 0x02, 0x03, 0x04]]\<rparr>)
   \<and> fake_ref (backend late_d6) = (fake_ref (backend late_d5))(Some 7 \<mapsto> [])
   \<and> invoked (events (late_d6\<lparr>events := events late_d6 @
            [EvCallback 0 [0x01, 0x02, 0x03, 0x04], EvCallback 1 [0x01, 0x02, 0x03, 0x04]]\<rparr>))
       = [(0, [0x01, 0x02, 0x03, 0x04]), (1, [0x01, 0x02, 0x03, 0x04])]"
proof -
  have two: "(0 :: int) < 2" by simp
  have rm: "((b_remove_notification (bled (fake_env True quiet)) (Some 7) 0) ^^ 2) (backend late_d5)
      = backend late_d6"
    by (simp add: fake_defs late_d5_def late_d6_def funpow_numeral_2)
  have ev: "events late_d5 @ replicate 2 (EvRemoveNotification (Some 7) 0) @ es = events late_d6 @ es" for es
    by (simp add: late_d5_def late_d6_def replicate_numeral_2)
  have d: "late_d5\<lparr>backend := backend late_d6, events := es\<rparr> = late_d6\<lparr>events := es\<rparr>" for es
    by (simp add: late_d5_def late_d6_def)
  from char_write_reassembles_live [where E = "fake_env True quiet", OF late_type two fake_live
      late_gh1 late_gh2 late_wr late_gn late_wait]
  obtain q where q: "fake_ref (backend late_d5) (Some 7) = Some q"
    and t: "(\<forall>cb \<in> set (registered late_dev (Some ''2a1c'')).
               observer (fake_env True quiet) cb (concat (take (nat 2) q)) = None) \<longrightarrow>
          (\<exists>d'. char_write (fake_env True quiet) (Some ''2a19'') [9] True 2 (Some ''2a1c'') 1 late_dev
                  = Some (Inr (), d')
             \<and> d' = late_d5\<lparr>backend := ((b_remove_notification (bled (fake_env True quiet)) (Some 7) 0) ^^ nat 2)
                                        (backend late_d5),
                       events := events late_d5 @ replicate (nat 2) (EvRemoveNotification (Some 7) 0)
                         @ map (\<lambda>cb. EvCallback cb (concat (take (nat 2) q))) (registered late_dev (Some ''2a1c''))\<rparr>
             \<and> invoked (events d')
                 = invoked (events late_dev) @ map (\<lambda>cb. (cb, concat (take (nat 2) q)))
                     (registered late_dev (Some ''2a1c'')))"
    by blast
  from q late_inbox(2) have qv: "q = [[0x01, 0x02], [0x03, 0x04]]" by simp
  have ok: "\<forall>cb \<in> set (registered late_dev (Some ''2a1c'')).
               observer (fake_env True quiet) cb (concat (take (nat 2) q)) = None"
    by (simp add: fake_env_def quiet_def)
  from t ok have 1: "char_write (fake_env True quiet) (Some ''2a19'') [9] True 2 (Some ''2a1c'') 1 late_dev
       = Some (Inr (), late_d6\<lparr>events := events late_d6 @
            [EvCallback 0 [0x01, 0x02, 0x03, 0x04], EvCallback 1 [0x01, 0x02, 0x03, 0x04]]\<rparr>)"
    by (simp add: qv rm ev d fake_registered)
  have 2: "fake_ref (backend late_d6) = (fake_ref (backend late_d5))(Some 7 \<mapsto> [])"
    by (auto simp add: fake_defs late_d5_def late_d6_def fun_eq_iff)
  have 3: "invoked (events (late_d6\<lparr>events := events late_d6 @
            [EvCallback 0 [0x01, 0x02, 0x03, 0x04], EvCallback 1 [0x01, 0x02, 0x03, 0x04]]\<rparr>))
       = [(0, [0x01, 0x02, 0x03, 0x04]), (1, [0x01, 0x02, 0x03, 0x04])]"
    by (simp add: late_d6_def)
  from fake_live late_inbox(1,2) late_wait 1 2 3 show ?thesis by blast
qed

text \<open>
  Claim C4 as stated fails on a backend that hands out a copy of its mapping: the two values
  \<open>[1, 2]\<close> and \<open>[3, 4]\<close> are removed from the inbox, but the loop reads element 0 of the
  copy twice and the callbacks receive \<open>[1, 2, 1, 2]\<close>. It also fails in "exactly once per
  observer": a callback that was registered twice is called twice.
\<close>

theorem snapshot_reassembly_counterexample:
  "char_write (fake_env False quiet) (Some ''2a19'') [9] True 2 (Some ''2a1c'') 1 fake_dev
     = Some (Inr (), fake_d6\<lparr>events := events fake_d6 @
          [EvCallback 0 [0x01, 0x02, 0x01, 0x02], EvCallback 1 [0x01, 0x02, 0x01, 0x02]]\<rparr>)
   \<and> f_inbox (backend fake_dev) = [(Some 7, [[0x01, 0x02], [0x03, 0x04]])]
   \<and> f_inbox (backend fake_d6) = [(Some 7, [])]
   \<and> [0x01, 0x02, 0x01, 0x02] \<noteq> concat [[0x01, 0x02], [0x03, 0x04 :: byte]]
   \<and> registered twice_dev (Some ''2a1c'') = [0, 0]
   \<and> (\<exists>d'. char_write (fake_env True quiet) (Some ''2a19'') [9] True 2 (Some ''2a1c'') 1 twice_dev
             = Some (Inr (), d')
          \<and> invoked (events d') = [(0, [0x01, 0x02, 0x03, 0x04]), (0, [0x01, 0x02, 0x03, 0x04])])"
  by (simp add: char_write_def uuid_2a19 uuid_2a1c fake_defs fake_d6_def twice_dev_def
      assemble_numeral quiet_def registered_def wait_loop_ready_now)

theorem char_write_times_out_witness:
  "never_enough (fake_env True quiet) (Some 7) 3 fake_ref fake_d4
   \<and> (0 :: rat) \<le> 1 \<and> (1 :: rat) \<le> 2 ^ 51
   \<and> (\<exists>d'. char_write (fake_env True quiet) (Some ''2a19'') [9] True 3 (Some ''2a1c'') 1 fake_dev
              = Some (Inl (NoResponseError 1), d')
          \<and> events d' = events fake_d4 @
               [EvSleep (1 / 4), EvGetNotifications, EvSleep (1 / 4), EvGetNotifications,
                EvSleep (1 / 4), EvGetNotifications, EvSleep (1 / 4), EvGetNotifications]
          \<and> invoked (events d') = [])
   \<and> fake_ref (backend fake_d4) (Some 7) = Some [[0x01, 0x02], [0x03, 0x04]]
   \<and> wait_loop (fake_env True quiet) (Some 7) 2 0 fake_ref 5 fake_d4 = Some (Inr fake_ref, fake_d4)"
proof -
  have three: "(0 :: int) < 3" and t0: "(0 :: rat) \<le> 1" and t1: "(1 :: rat) \<le> 2 ^ 51" by simp_all
  have c: "nat \<lceil>4 * (1 :: rat)\<rceil> = 4" by simp
  note t = char_write_times_out [where nf' = fake_ref and d' = fake_d4 and h' = "Some 7"
      and q' = "[[0x01, 0x02], [0x03, 0x04]]" and n' = 2 and T' = 0 and w' = 5,
      OF fake_type three fake_gh1 fake_gh2 fake_wr fake_gn fake_never t0 t1]
  let ?d' = "snd (poll (fake_env True quiet) 4 (fake_ref, fake_d4))"
  have 1: "char_write (fake_env True quiet) (Some ''2a19'') [9] True 3 (Some ''2a1c'') 1 fake_dev
       = Some (Inl (NoResponseError 1), ?d')"
    using t [THEN conjunct1] by (simp add: c)
  have 2: "events ?d' = events fake_d4 @
               [EvSleep (1 / 4), EvGetNotifications, EvSleep (1 / 4), EvGetNotifications,
                EvSleep (1 / 4), EvGetNotifications, EvSleep (1 / 4), EvGetNotifications]"
    using t [THEN conjunct2, THEN conjunct2, THEN conjunct2, THEN conjunct1]
    by (simp only: c replicate_4_polls)
  have 3: "invoked (events ?d') = []"
    using t [THEN conjunct2, THEN conjunct2, THEN conjunct2, THEN conjunct2, THEN conjunct1]
    by (simp add: c fake_events)
  have 4: "wait_loop (fake_env True quiet) (Some 7) 2 0 fake_ref 5 fake_d4 = Some (Inr fake_ref, fake_d4)"
    using t [THEN conjunct2, THEN conjunct2, THEN conjunct2, THEN conjunct2, THEN conjunct2] fake_inbox
    by simp
  from fake_never t0 t1 1 2 3 4 fake_inbox show ?thesis by blast
qed

lemma fake_diverges:
  "2 ^ 51 < T \<Longrightarrow> wait_loop (fake_env True quiet) (Some 7) 3 T fake_ref 0 fake_d4 = None"
  using wait_loop_diverges [OF fake_never, of T 0 0 quiet] by simp

text \<open>
  Claim C5 as stated fails in two ways. With a timeout of -1 s and an inbox that stays short,
  \<open>NoResponseError\<close> carries 0 s, which is more than 0.25 s above the timeout. With a timeout
  of $2^{52}$ s and an inbox that stays short, the call never returns: the counter stops at
  $2^{51}$ and no error is raised.
\<close>

theorem timeout_counterexample:
  "char_write (fake_env True quiet) (Some ''2a19'') [9] True 3 (Some ''2a1c'') (- 1) fake_dev
       = Some (Inl (NoResponseError 0), fake_d4)
   \<and> \<not> ((0 :: rat) \<le> - 1 + 1 / 4)
   \<and> never_enough (fake_env True quiet) (Some 7) 3 fake_ref fake_d4
   \<and> char_write (fake_env True quiet) (Some ''2a19'') [9] True 3 (Some ''2a1c'') (2 ^ 52) fake_dev
       = None"
proof -
  have three: "(0 :: int) < 3" by simp
  have neg: "wait_loop (fake_env True quiet) (Some 7) 3 (- 1) fake_ref 0 fake_d4
      = Some (Inl (NoResponseError 0), fake_d4)"
    using fake_inbox by (subst wait_loop.simps) simp
  have 1: "char_write (fake_env True quiet) (Some ''2a19'') [9] True 3 (Some ''2a1c'') (- 1) fake_dev
       = Some (Inl (NoResponseError 0), fake_d4)"
    using char_write_wait_path [where E = "fake_env True quiet" and T = "- 1",
        OF fake_type three fake_gh1 fake_gh2 fake_wr fake_gn]
      neg by simp
  have big: "(2 :: rat) ^ 51 < 2 ^ 52" by simp
  have 2: "char_write (fake_env True quiet) (Some ''2a19'') [9] True 3 (Some ''2a1c'') (2 ^ 52) fake_dev
       = None"
    using char_write_wait_path [where E = "fake_env True quiet" and T = "2 ^ 52",
        OF fake_type three fake_gh1 fake_gh2 fake_wr fake_gn]
      fake_diverges [OF big] by simp
  from 1 2 fake_never show ?thesis by simp
qed

theorem wait_loop_terminates_witness:
  "(1 :: rat) \<le> 2 ^ 51
   \<and> (\<exists>k \<le> 4. \<exists>r. wait_loop (fake_env True quiet) (Some 7) 3 1 fake_ref 0 fake_d4
                       = Some (r, snd (poll (fake_env True quiet) k (fake_ref, fake_d4)))
          \<and> events (snd (poll (fake_env True quiet) k (fake_ref, fake_d4)))
              = events fake_d4 @ concat (replicate k [EvSleep (1 / 4), EvGetNotifications]))
   \<and> (0 :: rat) \<le> 0
   \<and> fake_ref (backend fake_d4) (Some 7) = Some [[0x01, 0x02], [0x03, 0x04]]
   \<and> wait_loop (fake_env True quiet) (Some 7) 3 0 fake_ref 0 fake_d4
       = Some (Inl (NoResponseError 0), fake_d4)"
proof -
  have c: "nat \<lceil>4 * (1 :: rat)\<rceil> = 4" by simp
  have t1: "(1 :: rat) \<le> 2 ^ 51" by simp
  have pend: "f_pending (backend (snd (fake_ref, fake_d4))) = []"
    by (simp add: fake_defs fake_d4_def)
  have listed: "\<forall>k \<le> nat \<lceil>4 * (1 :: rat)\<rceil>.
      fst (poll (fake_env True quiet) k (fake_ref, fake_d4))
        (backend (snd (poll (fake_env True quiet) k (fake_ref, fake_d4)))) (Some 7) \<noteq> None"
    using fake_poll [of "(fake_ref, fake_d4)", OF _ pend, of quiet] fake_inbox by simp
  have 1: "\<exists>k \<le> 4. \<exists>r. wait_loop (fake_env True quiet) (Some 7) 3 1 fake_ref 0 fake_d4
                       = Some (r, snd (poll (fake_env True quiet) k (fake_ref, fake_d4)))
          \<and> events (snd (poll (fake_env True quiet) k (fake_ref, fake_d4)))
              = events fake_d4 @ concat (replicate k [EvSleep (1 / 4), EvGetNotifications])"
    using wait_loop_terminates [of 1 "fake_env True quiet" fake_ref fake_d4 "Some 7" 3
        "[[0x01, 0x02], [0x03, 0x04]]", THEN conjunct1] t1 listed
    unfolding c by blast
  have 2: "wait_loop (fake_env True quiet) (Some 7) 3 0 fake_ref 0 fake_d4
       = Some (Inl (NoResponseError 0), fake_d4)"
    using wait_loop_terminates [of 0 "fake_env True quiet" fake_ref fake_d4 "Some 7" 3
        "[[0x01, 0x02], [0x03, 0x04]]", THEN conjunct2] fake_inbox
    by simp
  from 1 2 t1 fake_inbox show ?thesis by simp
qed

text \<open>
  Claim C10 as stated fails for a timeout above $2^{51}$ s: against an inbox that stays short
  the counter stops growing at $2^{51}$, never reaches the timeout, and the loop runs forever.
\<close>

theorem wait_loop_forever_counterexample:
  "never_enough (fake_env True quiet) (Some 7) 3 fake_ref fake_d4
   \<and> (2 :: rat) ^ 51 < 2 ^ 51 + 1
   \<and> wait_loop (fake_env True quiet) (Some 7) 3 (2 ^ 51 + 1) fake_ref 0 fake_d4 = None"
proof -
  have big: "(2 :: rat) ^ 51 < 2 ^ 51 + 1" by simp
  from fake_diverges [OF big] fake_never big show ?thesis by blast
qed

end
